theory Spec2Isabelle
  imports Complex_Main
begin

section \<open>JavaScript numbers\<close>

text \<open>
  The analyzer computes with JavaScript numbers. A number is modelled as \<open>NaN\<close>, one of
  the two infinities, or a finite value carried as an exact rational: the comparisons, the
  propagation of \<open>NaN\<close> and the arithmetic of the infinities follow IEEE 754, while the
  rounding of finite results to 64-bit doubles, overflow of finite digit strings to
  \<open>Infinity\<close> and the sign of zero are outside the model. Strings are lists of
  8-bit characters; only the ASCII white space characters are recognised as white space.
\<close>

datatype jsnum = NaN | NInf | Fin rat | PInf

text \<open>\<open>a < b\<close> on numbers: false as soon as one side is \<open>NaN\<close>.\<close>

fun js_lt :: "jsnum \<Rightarrow> jsnum \<Rightarrow> bool" where
  "js_lt NaN _ = False"
| "js_lt _ NaN = False"
| "js_lt NInf NInf = False"
| "js_lt NInf _ = True"
| "js_lt (Fin a) (Fin b) = (a < b)"
| "js_lt (Fin a) PInf = True"
| "js_lt (Fin a) NInf = False"
| "js_lt PInf _ = False"

definition js_gt :: "jsnum \<Rightarrow> jsnum \<Rightarrow> bool" where
  "js_gt a b = js_lt b a"

definition js_le :: "jsnum \<Rightarrow> jsnum \<Rightarrow> bool" where
  "js_le a b = (a \<noteq> NaN \<and> b \<noteq> NaN \<and> (js_lt a b \<or> a = b))"

definition isNaN :: "jsnum \<Rightarrow> bool" where
  "isNaN a = (a = NaN)"

text \<open>\<open>a * b\<close>: zero times an infinity is \<open>NaN\<close>.\<close>

fun js_mul :: "jsnum \<Rightarrow> jsnum \<Rightarrow> jsnum" where
  "js_mul NaN _ = NaN"
| "js_mul _ NaN = NaN"
| "js_mul (Fin a) (Fin b) = Fin (a * b)"
| "js_mul (Fin a) PInf = (if a = 0 then NaN else if 0 < a then PInf else NInf)"
| "js_mul (Fin a) NInf = (if a = 0 then NaN else if 0 < a then NInf else PInf)"
| "js_mul PInf (Fin b) = (if b = 0 then NaN else if 0 < b then PInf else NInf)"
| "js_mul NInf (Fin b) = (if b = 0 then NaN else if 0 < b then NInf else PInf)"
| "js_mul PInf PInf = PInf"
| "js_mul NInf NInf = PInf"
| "js_mul PInf NInf = NInf"
| "js_mul NInf PInf = NInf"

text \<open>\<open>a + b\<close>: the sum of the two opposite infinities is \<open>NaN\<close>.\<close>

fun js_add :: "jsnum \<Rightarrow> jsnum \<Rightarrow> jsnum" where
  "js_add NaN _ = NaN"
| "js_add _ NaN = NaN"
| "js_add (Fin a) (Fin b) = Fin (a + b)"
| "js_add PInf NInf = NaN"
| "js_add NInf PInf = NaN"
| "js_add PInf _ = PInf"
| "js_add _ PInf = PInf"
| "js_add NInf _ = NInf"
| "js_add _ NInf = NInf"

text \<open>\<open>Math.max(a, b)\<close> and \<open>Math.min(a, b)\<close>: \<open>NaN\<close> if one argument is.\<close>

definition Math_max2 :: "jsnum \<Rightarrow> jsnum \<Rightarrow> jsnum" where
  "Math_max2 a b = (if a = NaN \<or> b = NaN then NaN else if js_lt a b then b else a)"

definition Math_min2 :: "jsnum \<Rightarrow> jsnum \<Rightarrow> jsnum" where
  "Math_min2 a b = (if a = NaN \<or> b = NaN then NaN else if js_lt b a then b else a)"

text \<open>\<open>Math.max(...xs)\<close> and \<open>Math.min(...xs)\<close>; on no argument they are
  \<open>-Infinity\<close> and \<open>Infinity\<close>.\<close>

definition Math_max :: "jsnum list \<Rightarrow> jsnum" where
  "Math_max xs = fold (\<lambda>x acc. Math_max2 acc x) xs NInf"

definition Math_min :: "jsnum list \<Rightarrow> jsnum" where
  "Math_min xs = fold (\<lambda>x acc. Math_min2 acc x) xs PInf"

section \<open>Strings and \<open>parseFloat\<close>\<close>

definition isDigit :: "char \<Rightarrow> bool" where
  "isDigit c = (c \<in> set ''0123456789'')"

definition isWhiteSpace :: "char \<Rightarrow> bool" where
  "isWhiteSpace c = (c \<in> {CHR '' '', CHR 0x09, CHR 0x0A, CHR 0x0B, CHR 0x0C, CHR 0x0D})"

definition digitVal :: "char \<Rightarrow> int" where
  "digitVal c = of_char c - 48"

text \<open>The value of a string of decimal digits, most significant digit first.\<close>

definition digitsVal :: "string \<Rightarrow> int" where
  "digitsVal ds = fold (\<lambda>c acc. 10 * acc + digitVal c) ds 0"

definition toLowerCase_char :: "char \<Rightarrow> char" where
  "toLowerCase_char c =
     (let n = (of_char c :: int) in if 65 \<le> n \<and> n \<le> 90 then char_of (n + 32) else c)"

definition toLowerCase :: "string \<Rightarrow> string" where
  "toLowerCase s = map toLowerCase_char s"

definition startsWith :: "string \<Rightarrow> string \<Rightarrow> bool" where
  "startsWith s p = (take (length p) s = p)"

text \<open>The exponent part \<open>e\<close>, \<open>E\<close> with an optional sign and at least one digit;
  an incomplete exponent part is not consumed and counts as exponent 0.\<close>

definition exponentPart :: "string \<Rightarrow> int" where
  "exponentPart r =
     (case r of
        [] \<Rightarrow> 0
      | c # r1 \<Rightarrow>
          if c = CHR ''e'' \<or> c = CHR ''E'' then
            (case r1 of
               [] \<Rightarrow> 0
             | s # r2 \<Rightarrow>
                 if s = CHR ''-'' then
                   (if takeWhile isDigit r2 = [] then 0
                    else - digitsVal (takeWhile isDigit r2))
                 else if s = CHR ''+'' then digitsVal (takeWhile isDigit r2)
                 else digitsVal (takeWhile isDigit r1))
          else 0)"

definition pow10 :: "int \<Rightarrow> rat" where
  "pow10 e = (if 0 \<le> e then 10 ^ nat e else 1 / 10 ^ nat (- e))"

text \<open>The unsigned decimal literal at the start of a string: digits, an optional
  fraction, an optional exponent. Without a digit before or after the point there is no
  literal.\<close>

definition unsignedDecimal :: "string \<Rightarrow> rat option" where
  "unsignedDecimal u =
     (let ip = takeWhile isDigit u;
          r1 = dropWhile isDigit u;
          fp = (case r1 of [] \<Rightarrow> [] | c # r \<Rightarrow> if c = CHR ''.'' then takeWhile isDigit r else []);
          r2 = (case r1 of [] \<Rightarrow> [] | c # r \<Rightarrow> if c = CHR ''.'' then dropWhile isDigit r else r1)
      in if ip = [] \<and> fp = [] then None
         else Some ((of_int (digitsVal ip) + of_int (digitsVal fp) / 10 ^ length fp)
                    * pow10 (exponentPart r2)))"

text \<open>\<open>parseFloat(s)\<close>: leading white space is skipped, then the longest prefix that is
  a signed decimal literal or \<open>Infinity\<close> is read; \<open>NaN\<close> when there is none.\<close>

definition parseFloat :: "string \<Rightarrow> jsnum" where
  "parseFloat s =
     (let t = dropWhile isWhiteSpace s;
          neg = (case t of [] \<Rightarrow> False | c # _ \<Rightarrow> c = CHR ''-'');
          u = (case t of [] \<Rightarrow> [] | c # r \<Rightarrow> if c = CHR ''-'' \<or> c = CHR ''+'' then r else t)
      in if startsWith u ''Infinity'' then (if neg then NInf else PInf)
         else (case unsignedDecimal u of
                 None \<Rightarrow> NaN
               | Some q \<Rightarrow> Fin (if neg then - q else q)))"

section \<open>\<open>utils.ts\<close>: the time-string parser\<close>

definition isDigitOrDot :: "char \<Rightarrow> bool" where
  "isDigitOrDot c = (isDigit c \<or> c = CHR ''.'')"

text \<open>The match of \<open>/^([\d.]+)(ms|s)$/i\<close>: a non-empty run of digits and points, then
  exactly \<open>ms\<close> or \<open>s\<close> in either case; the result is the two groups.\<close>

definition matchTime :: "string \<Rightarrow> (string \<times> string) option" where
  "matchTime timeStr =
     (let g1 = takeWhile isDigitOrDot timeStr;
          g2 = dropWhile isDigitOrDot timeStr
      in if g1 \<noteq> [] \<and> (toLowerCase g2 = ''ms'' \<or> toLowerCase g2 = ''s'')
         then Some (g1, g2) else None)"

definition parseTime :: "string \<Rightarrow> jsnum option" where
  "parseTime timeStr =
     (case matchTime timeStr of
        None \<Rightarrow> None
      | Some (g1, g2) \<Rightarrow>
          (let value = parseFloat g1;
               unit = toLowerCase g2
           in if unit = ''ms'' then Some value
              else if unit = ''s'' then Some (js_mul value (Fin 1000))
              else None))"

section \<open>Errors\<close>

text \<open>The error classes of \<open>utils.ts\<close> that the modelled code throws, with their
  messages: \<open>ValidationError\<close>, and the plain \<open>Error\<close> of
  \<open>validatePositiveNumber\<close>.\<close>

datatype error = ValidationError string | Error string


section \<open>The document\<close>

text \<open>An element of the parsed document: its tag name, its attributes and its child
  elements, in document order. \<open>getAttribute\<close> gives \<open>None\<close> for an absent
  attribute; the code tests attribute values for truthiness, and an absent attribute and
  an empty value are both falsy.\<close>

datatype element = Element (tagName: string) (attributes: "(string \<times> string) list")
  (childNodes: "element list")

definition getAttribute :: "element \<Rightarrow> string \<Rightarrow> string option" where
  "getAttribute e name = map_of (attributes e) name"

fun descendants :: "element \<Rightarrow> element list" where
  "descendants (Element t as cs) = concat (map (\<lambda>c. c # descendants c) cs)"

definition getElementsByTagName :: "element \<Rightarrow> string \<Rightarrow> element list" where
  "getElementsByTagName e name = filter (\<lambda>d. tagName d = name) (descendants e)"

section \<open>\<open>svg-analyzer.ts\<close>: dimensions\<close>

record SVGDimensions =
  width :: jsnum
  height :: jsnum

definition parseNumericAttribute :: "string \<Rightarrow> jsnum option" where
  "parseNumericAttribute v =
     (let m = takeWhile isDigitOrDot v
      in if m = [] then None
         else (let num = parseFloat m in if isNaN num then None else Some num))"

definition trim :: "string \<Rightarrow> string" where
  "trim s = rev (dropWhile isWhiteSpace (rev (dropWhile isWhiteSpace s)))"

text \<open>\<open>s.split(/\s+/)\<close>: every maximal run of white space separates two parts; the
  empty string gives one empty part.\<close>

fun splitRuns :: "bool \<Rightarrow> string \<Rightarrow> string \<Rightarrow> string list" where
  "splitRuns inRun cur [] = [cur]"
| "splitRuns inRun cur (c # cs) =
     (if isWhiteSpace c then
        (if inRun then splitRuns True cur cs else cur # splitRuns True [] cs)
      else splitRuns False (cur @ [c]) cs)"

definition split_whitespace :: "string \<Rightarrow> string list" where
  "split_whitespace s = splitRuns False [] s"

definition noDimensions :: error where
  "noDimensions = ValidationError
     ''Unable to extract valid dimensions from SVG (no width/height attributes or viewBox)''"

text \<open>The pair \<open>(width, height)\<close> after the attribute step and the \<open>viewBox\<close>
  step of \<open>extractDimensions\<close>, before the final check; \<open>None\<close> is \<open>null\<close>.\<close>

definition dimensionCandidates :: "element \<Rightarrow> jsnum option \<times> jsnum option" where
  "dimensionCandidates svgElement =
     (let widthAttr = getAttribute svgElement ''width'';
          heightAttr = getAttribute svgElement ''height'';
          width0 = (case widthAttr of None \<Rightarrow> None
                    | Some v \<Rightarrow> if v \<noteq> [] then parseNumericAttribute v else None);
          height0 = (case heightAttr of None \<Rightarrow> None
                     | Some v \<Rightarrow> if v \<noteq> [] then parseNumericAttribute v else None)
      in if width0 = None \<or> height0 = None then
           (case getAttribute svgElement ''viewBox'' of
              None \<Rightarrow> (width0, height0)
            | Some viewBox \<Rightarrow>
                if viewBox \<noteq> [] then
                  (let parts = split_whitespace (trim viewBox)
                   in if length parts = 4
                      then (Some (parseFloat (parts ! 2)), Some (parseFloat (parts ! 3)))
                      else (width0, height0))
                else (width0, height0))
         else (width0, height0))"

definition extractDimensions :: "element \<Rightarrow> error + SVGDimensions" where
  "extractDimensions svgElement =
     (case dimensionCandidates svgElement of
        (Some w, Some h) \<Rightarrow>
          if js_le w (Fin 0) \<or> js_le h (Fin 0) then Inl noDimensions
          else Inr \<lparr>width = w, height = h\<rparr>
      | _ \<Rightarrow> Inl noDimensions)"

section \<open>\<open>svg-analyzer.ts\<close>: the timing of one animation element\<close>

record Timing =
  endTime :: "jsnum option"
  isInfinite :: bool
  baseDuration :: "jsnum option"
  isExplicitInfinite :: bool

text \<open>The local variables of \<open>parseAnimationTiming\<close>, each as the code computes it.\<close>

definition baseDurationOf :: "element \<Rightarrow> jsnum" where
  "baseDurationOf element =
     (case getAttribute element ''dur'' of
        None \<Rightarrow> Fin 0
      | Some durAttr \<Rightarrow>
          if durAttr \<noteq> [] then (case parseTime durAttr of None \<Rightarrow> Fin 0 | Some parsedDur \<Rightarrow> parsedDur)
          else Fin 0)"

definition beginAttrOf :: "element \<Rightarrow> string" where
  "beginAttrOf element =
     (case getAttribute element ''begin'' of
        None \<Rightarrow> ''0s''
      | Some b \<Rightarrow> if b \<noteq> [] then b else ''0s'')"

definition beginTimeOf :: "element \<Rightarrow> jsnum" where
  "beginTimeOf element =
     (case parseTime (beginAttrOf element) of None \<Rightarrow> Fin 0 | Some parsedBegin \<Rightarrow> parsedBegin)"

definition repeatCountOf :: "element \<Rightarrow> jsnum" where
  "repeatCountOf element =
     (case getAttribute element ''repeatCount'' of
        None \<Rightarrow> Fin 1
      | Some repeatCountAttr \<Rightarrow>
          if repeatCountAttr \<noteq> [] \<and> repeatCountAttr \<noteq> ''indefinite'' then
            (let parsed = parseFloat repeatCountAttr
             in if \<not> isNaN parsed \<and> js_gt parsed (Fin 0) then parsed else Fin 1)
          else Fin 1)"

definition repeatDurationOf :: "element \<Rightarrow> jsnum option" where
  "repeatDurationOf element =
     (case getAttribute element ''repeatDur'' of
        None \<Rightarrow> None
      | Some repeatDurAttr \<Rightarrow>
          if repeatDurAttr \<noteq> [] \<and> repeatDurAttr \<noteq> ''indefinite'' then parseTime repeatDurAttr
          else None)"

definition totalDurationOf :: "element \<Rightarrow> jsnum" where
  "totalDurationOf element =
     (case repeatDurationOf element of
        Some repeatDuration \<Rightarrow> repeatDuration
      | None \<Rightarrow> js_mul (baseDurationOf element) (repeatCountOf element))"

definition MAX_REASONABLE_DURATION :: jsnum where
  "MAX_REASONABLE_DURATION = Fin (3600 * 1000)"

definition parseAnimationTiming :: "element \<Rightarrow> Timing" where
  "parseAnimationTiming element =
     (if getAttribute element ''dur'' = Some ''indefinite'' then
        \<lparr>endTime = None, isInfinite = True, baseDuration = None, isExplicitInfinite = False\<rparr>
      else if getAttribute element ''repeatCount'' = Some ''indefinite'' then
        \<lparr>endTime = None, isInfinite = True, baseDuration = Some (baseDurationOf element),
         isExplicitInfinite = True\<rparr>
      else if getAttribute element ''repeatDur'' = Some ''indefinite'' then
        \<lparr>endTime = None, isInfinite = True, baseDuration = Some (baseDurationOf element),
         isExplicitInfinite = True\<rparr>
      else if js_gt (totalDurationOf element) MAX_REASONABLE_DURATION then
        \<lparr>endTime = None, isInfinite = True, baseDuration = Some (baseDurationOf element),
         isExplicitInfinite = False\<rparr>
      else
        \<lparr>endTime = Some (js_add (beginTimeOf element) (totalDurationOf element)),
         isInfinite = False, baseDuration = Some (baseDurationOf element),
         isExplicitInfinite = False\<rparr>)"

section \<open>\<open>svg-analyzer.ts\<close>: the reduction over all animation elements\<close>

record AnimationInfo =
  hasAnimations :: bool
  duration :: "jsnum option"
  hasInfiniteAnimations :: bool
  loopDuration :: "jsnum option"

record SVGAnalysis = AnimationInfo +
  dimensions :: SVGDimensions

definition animationTags :: "string list" where
  "animationTags = [''animate'', ''animateTransform'', ''animateMotion'', ''set'', ''animateColor'']"

text \<open>The elements the two nested loops visit, in the order they visit them.\<close>

definition animationElements :: "element \<Rightarrow> element list" where
  "animationElements svgElement = concat (map (getElementsByTagName svgElement) animationTags)"

text \<open>The variables the loops update; \<open>seenAnimations\<close> and \<open>seenInfinite\<close>
  are the variables \<open>hasAnimations\<close> and \<open>hasInfiniteAnimations\<close> of the code, whose
  names the fields of the result carry here.\<close>

record LoopState =
  maxEndTime :: jsnum
  seenAnimations :: bool
  seenInfinite :: bool
  loopDurations :: "jsnum list"
  infiniteLoopDurations :: "jsnum list"

definition initialState :: LoopState where
  "initialState = \<lparr>maxEndTime = Fin 0, seenAnimations = False, seenInfinite = False,
     loopDurations = [], infiniteLoopDurations = []\<rparr>"

text \<open>One pass of the inner loop body, on the timing \<open>parseAnimationTiming\<close> gave
  for the element.\<close>

definition collect :: "Timing \<Rightarrow> LoopState \<Rightarrow> LoopState" where
  "collect timing st =
     (let st1 = st\<lparr>seenAnimations := True\<rparr>
      in if isInfinite timing then
           (let st2 = st1\<lparr>seenInfinite := True\<rparr>
            in case baseDuration timing of
                 None \<Rightarrow> st2
               | Some d \<Rightarrow>
                   if js_gt d (Fin 0) then
                     (let st3 = st2\<lparr>loopDurations := loopDurations st2 @ [d]\<rparr>
                      in if isExplicitInfinite timing
                         then st3\<lparr>infiniteLoopDurations := infiniteLoopDurations st3 @ [d]\<rparr>
                         else st3)
                   else st2)
         else
           (case endTime timing of
              None \<Rightarrow> st1
            | Some e \<Rightarrow> st1\<lparr>maxEndTime := Math_max2 (maxEndTime st1) e\<rparr>))"

text \<open>The loop duration computed after the loops, and the record that is returned.\<close>

definition chooseLoopDuration :: "LoopState \<Rightarrow> jsnum option" where
  "chooseLoopDuration st =
     (if seenInfinite st \<and> loopDurations st \<noteq> [] then
        (if infiniteLoopDurations st \<noteq> [] then
           (let reasonableLoops = filter (\<lambda>d. js_le d (Fin (600 * 1000))) (infiniteLoopDurations st)
            in if reasonableLoops \<noteq> [] then Some (Math_max reasonableLoops)
               else Some (Math_min (infiniteLoopDurations st)))
         else Some (Math_max (loopDurations st)))
      else None)"

definition reduceTimings :: "Timing list \<Rightarrow> AnimationInfo" where
  "reduceTimings ts =
     (let st = fold collect ts initialState
      in \<lparr>hasAnimations = seenAnimations st,
          duration = (if seenAnimations st \<and> \<not> seenInfinite st \<and> js_gt (maxEndTime st) (Fin 0)
                      then Some (maxEndTime st) else None),
          hasInfiniteAnimations = seenInfinite st,
          loopDuration = chooseLoopDuration st\<rparr>)"

definition analyzeAnimations :: "element \<Rightarrow> AnimationInfo" where
  "analyzeAnimations svgElement =
     reduceTimings (map parseAnimationTiming (animationElements svgElement))"

text \<open>\<open>analyzeSVG\<close> from the parsed document on: the argument is the document element,
  \<open>None\<close> when the parser found none.\<close>

definition analyzeSVG :: "element option \<Rightarrow> error + SVGAnalysis" where
  "analyzeSVG documentElement =
     (case documentElement of
        None \<Rightarrow> Inl (ValidationError ''Invalid SVG file: no <svg> root element found'')
      | Some svgElement \<Rightarrow>
          if tagName svgElement \<noteq> ''svg''
          then Inl (ValidationError ''Invalid SVG file: no <svg> root element found'')
          else (case extractDimensions svgElement of
                  Inl e \<Rightarrow> Inl e
                | Inr dims \<Rightarrow>
                    (let animationInfo = analyzeAnimations svgElement
                     in Inr \<lparr>hasAnimations = hasAnimations animationInfo,
                             duration = duration animationInfo,
                             hasInfiniteAnimations = hasInfiniteAnimations animationInfo,
                             loopDuration = loopDuration animationInfo,
                             dimensions = dims\<rparr>)))"

section \<open>The command line: which duration is recorded\<close>






section \<open>Notions the properties are stated with\<close>

definition isValidationError :: "error + 'a \<Rightarrow> bool" where
  "isValidationError r = (case r of Inl (ValidationError _) \<Rightarrow> True | _ \<Rightarrow> False)"

text \<open>\<open>m\<close> is a greatest, respectively a least, member of \<open>xs\<close>.\<close>

definition isMaximumOf :: "jsnum \<Rightarrow> jsnum list \<Rightarrow> bool" where
  "isMaximumOf m xs = (m \<in> set xs \<and> list_all (\<lambda>x. js_le x m) xs)"

definition isMinimumOf :: "jsnum \<Rightarrow> jsnum list \<Rightarrow> bool" where
  "isMinimumOf m xs = (m \<in> set xs \<and> list_all (\<lambda>x. js_le m x) xs)"

text \<open>No attribute named \<open>dur\<close>, \<open>repeatCount\<close> or \<open>repeatDur\<close> is the
  sentinel \<open>indefinite\<close>.\<close>

definition noIndefinite :: "element \<Rightarrow> bool" where
  "noIndefinite e =
     (getAttribute e ''dur'' \<noteq> Some ''indefinite'' \<and>
      getAttribute e ''repeatCount'' \<noteq> Some ''indefinite'' \<and>
      getAttribute e ''repeatDur'' \<noteq> Some ''indefinite'')"

subsection \<open>The timing windows of a document\<close>

definition timings :: "element \<Rightarrow> Timing list" where
  "timings svgElement = map parseAnimationTiming (animationElements svgElement)"

text \<open>The base duration of a window when it is a number greater than zero.\<close>

definition positiveBase :: "Timing \<Rightarrow> jsnum list" where
  "positiveBase t =
     (case baseDuration t of None \<Rightarrow> [] | Some d \<Rightarrow> if js_gt d (Fin 0) then [d] else [])"

text \<open>The positive base durations of the infinite windows, and of those among them
  that are explicitly infinite; the end times of the finite windows.\<close>

definition infiniteBaseDurations :: "Timing list \<Rightarrow> jsnum list" where
  "infiniteBaseDurations ts = concat (map positiveBase (filter isInfinite ts))"

definition explicitForeverDurations :: "Timing list \<Rightarrow> jsnum list" where
  "explicitForeverDurations ts =
     concat (map positiveBase (filter (\<lambda>t. isInfinite t \<and> isExplicitInfinite t) ts))"

text \<open>The base durations of all explicitly infinite windows, zero or not.\<close>

definition allExplicitForeverDurations :: "Timing list \<Rightarrow> jsnum list" where
  "allExplicitForeverDurations ts =
     concat (map (\<lambda>t. case baseDuration t of None \<Rightarrow> [] | Some d \<Rightarrow> [d])
               (filter (\<lambda>t. isInfinite t \<and> isExplicitInfinite t) ts))"

definition finiteEndTimes :: "Timing list \<Rightarrow> jsnum list" where
  "finiteEndTimes ts =
     concat (map (\<lambda>t. case endTime t of None \<Rightarrow> [] | Some e \<Rightarrow> [e])
               (filter (\<lambda>t. \<not> isInfinite t) ts))"

definition REASONABLE_LOOP :: jsnum where
  "REASONABLE_LOOP = Fin 600000"

subsection \<open>Elements and documents that differ only in \<open>begin\<close>\<close>

definition withoutBegin :: "element \<Rightarrow> (string \<times> string) list" where
  "withoutBegin e = filter (\<lambda>kv. fst kv \<noteq> ''begin'') (attributes e)"

text \<open>Two elements with the same tag whose attributes agree apart from \<open>begin\<close>.\<close>

definition sameExceptBegin :: "element \<Rightarrow> element \<Rightarrow> bool" where
  "sameExceptBegin e1 e2 = (tagName e1 = tagName e2 \<and> withoutBegin e1 = withoutBegin e2)"

text \<open>Two documents of the same shape whose elements agree in that way throughout.\<close>

fun differOnlyInBegin :: "element \<Rightarrow> element \<Rightarrow> bool" where
  "differOnlyInBegin (Element t1 a1 c1) (Element t2 a2 c2) =
     (sameExceptBegin (Element t1 a1 c1) (Element t2 a2 c2) \<and>
      list_all2 differOnlyInBegin c1 c2)"

subsection \<open>The total span and the start offset, in the words of the specification\<close>

text \<open>The base duration and the start offset default to 0 when the attribute is absent
  or not parseable; the repeat count defaults to 1 when the attribute is absent, not
  parseable or not positive; the total span is the repeat duration when \<open>repeatDur\<close> is
  present and parseable, else base duration times repeat count.\<close>

definition specBaseDuration :: "element \<Rightarrow> jsnum" where
  "specBaseDuration e =
     (case getAttribute e ''dur'' of
        None \<Rightarrow> Fin 0
      | Some d \<Rightarrow> (case parseTime d of None \<Rightarrow> Fin 0 | Some v \<Rightarrow> v))"

definition specStartOffset :: "element \<Rightarrow> jsnum" where
  "specStartOffset e =
     (case getAttribute e ''begin'' of
        None \<Rightarrow> Fin 0
      | Some b \<Rightarrow> (case parseTime b of None \<Rightarrow> Fin 0 | Some v \<Rightarrow> v))"

definition specRepeatCount :: "element \<Rightarrow> jsnum" where
  "specRepeatCount e =
     (case getAttribute e ''repeatCount'' of
        None \<Rightarrow> Fin 1
      | Some c \<Rightarrow> if parseFloat c = NaN \<or> js_le (parseFloat c) (Fin 0) then Fin 1
                  else parseFloat c)"

definition specTotalSpan :: "element \<Rightarrow> jsnum" where
  "specTotalSpan e =
     (case getAttribute e ''repeatDur'' of
        None \<Rightarrow> js_mul (specBaseDuration e) (specRepeatCount e)
      | Some r \<Rightarrow>
          (case parseTime r of
             None \<Rightarrow> js_mul (specBaseDuration e) (specRepeatCount e)
           | Some v \<Rightarrow> v))"

subsection \<open>The dimensions, in the words of the specification\<close>

text \<open>The number an attribute yields: its leading numeric prefix, when it has one.\<close>

definition numericAttribute :: "element \<Rightarrow> string \<Rightarrow> jsnum option" where
  "numericAttribute e name =
     (case getAttribute e name of None \<Rightarrow> None | Some v \<Rightarrow> parseNumericAttribute v)"

text \<open>The pair the dimensions are taken from: \<open>width\<close> and \<open>height\<close> when both
  yield numbers, otherwise the third and fourth of the four components of \<open>viewBox\<close>
  that white space separates.\<close>

definition chosenDimensions :: "element \<Rightarrow> (jsnum \<times> jsnum) option" where
  "chosenDimensions e =
     (case (numericAttribute e ''width'', numericAttribute e ''height'') of
        (Some w, Some h) \<Rightarrow> Some (w, h)
      | _ \<Rightarrow>
          (case getAttribute e ''viewBox'' of
             None \<Rightarrow> None
           | Some viewBox \<Rightarrow>
               (case split_whitespace (trim viewBox) of
                  [minX, minY, w, h] \<Rightarrow> Some (parseFloat w, parseFloat h)
                | _ \<Rightarrow> None)))"

text \<open>The components of a bounding box when spaces and commas both separate them, as the
  specification has it.\<close>

definition isSeparator :: "char \<Rightarrow> bool" where
  "isSeparator c = (isWhiteSpace c \<or> c = CHR '','')"

fun splitSeparated :: "bool \<Rightarrow> string \<Rightarrow> string \<Rightarrow> string list" where
  "splitSeparated inRun cur [] = [cur]"
| "splitSeparated inRun cur (c # cs) =
     (if isSeparator c then
        (if inRun then splitSeparated True cur cs else cur # splitSeparated True [] cs)
      else splitSeparated False (cur @ [c]) cs)"

definition specBoxComponents :: "string \<Rightarrow> string list" where
  "specBoxComponents s = splitSeparated False [] s"

subsection \<open>Documents of the examples\<close>

definition animate :: "(string \<times> string) list \<Rightarrow> element" where
  "animate as = Element ''animate'' as []"

definition svgDoc :: "element list \<Rightarrow> element" where
  "svgDoc cs = Element ''svg'' [(''width'', ''100''), (''height'', ''100'')] cs"

definition longRepeat :: element where
  "longRepeat = animate [(''dur'', ''1s''), (''repeatCount'', ''5000'')]"

definition finiteDoc :: element where
  "finiteDoc = svgDoc
     [animate [(''begin'', ''0s''), (''dur'', ''2s''), (''repeatCount'', ''3'')],
      animate [(''begin'', ''1s''), (''dur'', ''1s''), (''repeatCount'', ''1'')]]"

definition finiteAnalysis :: SVGAnalysis where
  "finiteAnalysis =
     \<lparr>hasAnimations = True, duration = Some (Fin 6000), hasInfiniteAnimations = False,
      loopDuration = None, dimensions = \<lparr>width = Fin 100, height = Fin 100\<rparr>\<rparr>"

definition placeholderDoc :: element where
  "placeholderDoc = svgDoc
     [animate [(''dur'', ''5s''), (''repeatCount'', ''indefinite'')],
      animate [(''dur'', ''44444s''), (''repeatCount'', ''indefinite'')]]"

definition placeholderAnalysis :: SVGAnalysis where
  "placeholderAnalysis =
     \<lparr>hasAnimations = True, duration = None, hasInfiniteAnimations = True,
      loopDuration = Some (Fin 5000), dimensions = \<lparr>width = Fin 100, height = Fin 100\<rparr>\<rparr>"

definition allPlaceholderDoc :: element where
  "allPlaceholderDoc = svgDoc
     [animate [(''dur'', ''700s''), (''repeatCount'', ''indefinite'')],
      animate [(''dur'', ''900s''), (''repeatCount'', ''indefinite'')]]"

definition pointDoc :: element where
  "pointDoc = svgDoc [animate [(''dur'', ''.s'')], animate [(''dur'', ''2s'')]]"

definition indefiniteDoc :: element where
  "indefiniteDoc = svgDoc [animate [(''dur'', ''indefinite'')]]"

definition noDurDoc :: element where
  "noDurDoc = svgDoc [animate [(''repeatCount'', ''indefinite'')]]"

definition unknownLoopAnalysis :: SVGAnalysis where
  "unknownLoopAnalysis =
     \<lparr>hasAnimations = True, duration = None, hasInfiniteAnimations = True,
      loopDuration = None, dimensions = \<lparr>width = Fin 100, height = Fin 100\<rparr>\<rparr>"

definition delayedLoop :: element where
  "delayedLoop = animate [(''begin'', ''3s''), (''dur'', ''5s''), (''repeatCount'', ''indefinite'')]"

definition plainLoop :: element where
  "plainLoop = animate [(''dur'', ''5s''), (''repeatCount'', ''indefinite'')]"

definition delayedRepeat :: element where
  "delayedRepeat = animate [(''begin'', ''1s''), (''dur'', ''2s''), (''repeatCount'', ''3'')]"

definition repeatDurElement :: element where
  "repeatDurElement = animate [(''dur'', ''1s''), (''repeatDur'', ''4s'')]"

definition commaBoxDoc :: element where
  "commaBoxDoc = Element ''svg'' [(''viewBox'', ''0,0,100,50'')] []"

definition boxDoc :: element where
  "boxDoc = Element ''svg'' [(''viewBox'', ''0 0 100 50'')] []"

definition sizedDoc :: element where
  "sizedDoc = Element ''svg'' [(''width'', ''100px''), (''height'', ''50.5pt'')] []"

definition zeroSizedDoc :: element where
  "zeroSizedDoc =
     Element ''svg'' [(''width'', ''0''), (''height'', ''0''), (''viewBox'', ''0 0 100 50'')] []"

definition bareDoc :: element where
  "bareDoc = Element ''svg'' [] []"

definition zeroBaseDoc :: element where
  "zeroBaseDoc = svgDoc
     [animate [(''dur'', ''0s''), (''repeatCount'', ''indefinite'')],
      animate [(''dur'', ''700s''), (''repeatCount'', ''indefinite'')]]"






section \<open>Verified properties\<close>

subsection \<open>The order on numbers, \<open>Math.max\<close> and \<open>Math.min\<close>\<close>

lemma js_le_refl: "a \<noteq> NaN \<Longrightarrow> js_le a a"
  by (simp add: js_le_def)

lemma js_le_trans: "js_le a b \<Longrightarrow> js_le b c \<Longrightarrow> js_le a c"
  by (cases a; cases b; cases c) (auto simp: js_le_def)

lemma js_le_antisym: "js_le a b \<Longrightarrow> js_le b a \<Longrightarrow> a = b"
  by (cases a; cases b) (auto simp: js_le_def)

lemma js_le_NaN [simp]: "\<not> js_le NaN b" "\<not> js_le a NaN"
  by (simp_all add: js_le_def)

lemma js_gt_NaN [simp]: "\<not> js_gt NaN b" "\<not> js_gt a NaN"
  by (cases b; simp add: js_gt_def) (cases a; simp add: js_gt_def)

lemma Math_max2_ge:
  assumes "a \<noteq> NaN" "b \<noteq> NaN"
  shows "js_le a (Math_max2 a b)" "js_le b (Math_max2 a b)"
    "Math_max2 a b = a \<or> Math_max2 a b = b" "Math_max2 a b \<noteq> NaN"
  using assms by (cases a; cases b; auto simp: Math_max2_def js_le_def)+

lemma Math_min2_le:
  assumes "a \<noteq> NaN" "b \<noteq> NaN"
  shows "js_le (Math_min2 a b) a" "js_le (Math_min2 a b) b"
    "Math_min2 a b = a \<or> Math_min2 a b = b" "Math_min2 a b \<noteq> NaN"
  using assms by (cases a; cases b; auto simp: Math_min2_def js_le_def)+

lemma fold_max_bounds:
  assumes "NaN \<notin> set xs" "a \<noteq> NaN"
  shows "fold (\<lambda>x acc. Math_max2 acc x) xs a \<noteq> NaN \<and>
         fold (\<lambda>x acc. Math_max2 acc x) xs a \<in> insert a (set xs) \<and>
         js_le a (fold (\<lambda>x acc. Math_max2 acc x) xs a) \<and>
         list_all (\<lambda>x. js_le x (fold (\<lambda>x acc. Math_max2 acc x) xs a)) xs"
  using assms
proof (induction xs arbitrary: a)
  case Nil
  then show ?case by (simp add: js_le_refl)
next
  case (Cons x xs)
  let ?b = "Math_max2 a x"
  let ?r = "fold (\<lambda>x acc. Math_max2 acc x) xs ?b"
  from Cons.prems have x: "x \<noteq> NaN" and xs: "NaN \<notin> set xs" by auto
  note m = Math_max2_ge [OF Cons.prems(2) x]
  from Cons.IH [OF xs m(4)]
  have r: "?r \<noteq> NaN" "?r \<in> insert ?b (set xs)" "js_le ?b ?r"
    "list_all (\<lambda>y. js_le y ?r) xs" by simp_all
  have "js_le a ?r" using m(1) r(3) by (rule js_le_trans)
  moreover have "js_le x ?r" using m(2) r(3) by (rule js_le_trans)
  moreover have "?r \<in> insert a (set (x # xs))" using r(2) m(3) by auto
  ultimately show ?case using r(1) r(4) by simp
qed

lemma fold_min_bounds:
  assumes "NaN \<notin> set xs" "a \<noteq> NaN"
  shows "fold (\<lambda>x acc. Math_min2 acc x) xs a \<noteq> NaN \<and>
         fold (\<lambda>x acc. Math_min2 acc x) xs a \<in> insert a (set xs) \<and>
         js_le (fold (\<lambda>x acc. Math_min2 acc x) xs a) a \<and>
         list_all (\<lambda>x. js_le (fold (\<lambda>x acc. Math_min2 acc x) xs a) x) xs"
  using assms
proof (induction xs arbitrary: a)
  case Nil
  then show ?case by (simp add: js_le_refl)
next
  case (Cons x xs)
  let ?b = "Math_min2 a x"
  let ?r = "fold (\<lambda>x acc. Math_min2 acc x) xs ?b"
  from Cons.prems have x: "x \<noteq> NaN" and xs: "NaN \<notin> set xs" by auto
  note m = Math_min2_le [OF Cons.prems(2) x]
  from Cons.IH [OF xs m(4)]
  have r: "?r \<noteq> NaN" "?r \<in> insert ?b (set xs)" "js_le ?r ?b"
    "list_all (\<lambda>y. js_le ?r y) xs" by simp_all
  have "js_le ?r a" using r(3) m(1) by (rule js_le_trans)
  moreover have "js_le ?r x" using r(3) m(2) by (rule js_le_trans)
  moreover have "?r \<in> insert a (set (x # xs))" using r(2) m(3) by auto
  ultimately show ?case using r(1) r(4) by simp
qed

lemma js_le_NInf: "x \<noteq> NaN \<Longrightarrow> js_le NInf x"
  by (cases x) (auto simp: js_le_def)

lemma js_le_PInf: "x \<noteq> NaN \<Longrightarrow> js_le x PInf"
  by (cases x) (auto simp: js_le_def)

lemma Math_max_isMaximumOf:
  assumes "xs \<noteq> []" "NaN \<notin> set xs"
  shows "isMaximumOf (Math_max xs) xs"
proof -
  let ?r = "Math_max xs"
  from fold_max_bounds [OF assms(2), of NInf]
  have r: "?r \<in> insert NInf (set xs)" "list_all (\<lambda>x. js_le x ?r) xs"
    by (simp_all add: Math_max_def)
  have "?r \<in> set xs"
  proof (cases "?r = NInf")
    case True
    from assms(1) obtain x where x: "x \<in> set xs" by (cases xs) auto
    with r(2) have "js_le x NInf" by (simp add: True list_all_iff)
    moreover from x assms(2) have "x \<noteq> NaN" by auto
    then have "js_le NInf x" by (rule js_le_NInf)
    ultimately have "x = NInf" by (rule js_le_antisym)
    with x True show ?thesis by simp
  next
    case False
    with r(1) show ?thesis by simp
  qed
  with r(2) show ?thesis by (simp add: isMaximumOf_def)
qed

lemma Math_min_isMinimumOf:
  assumes "xs \<noteq> []" "NaN \<notin> set xs"
  shows "isMinimumOf (Math_min xs) xs"
proof -
  let ?r = "Math_min xs"
  from fold_min_bounds [OF assms(2), of PInf]
  have r: "?r \<in> insert PInf (set xs)" "list_all (\<lambda>x. js_le ?r x) xs"
    by (simp_all add: Math_min_def)
  have "?r \<in> set xs"
  proof (cases "?r = PInf")
    case True
    from assms(1) obtain x where x: "x \<in> set xs" by (cases xs) auto
    with r(2) have "js_le PInf x" by (simp add: True list_all_iff)
    moreover from x assms(2) have "x \<noteq> NaN" by auto
    then have "js_le x PInf" by (rule js_le_PInf)
    ultimately have "x = PInf" by (rule js_le_antisym [rotated])
    with x True show ?thesis by simp
  next
    case False
    with r(1) show ?thesis by simp
  qed
  with r(2) show ?thesis by (simp add: isMinimumOf_def)
qed

subsection \<open>The time-string parser\<close>

lemma toLowerCase_char_digit: "isDigitOrDot c \<Longrightarrow> toLowerCase_char c = c"
  by (auto simp: isDigitOrDot_def isDigit_def toLowerCase_char_def)

lemma unit_head:
  assumes "toLowerCase u = ''ms'' \<or> toLowerCase u = ''s''"
  shows "u \<noteq> [] \<and> \<not> isDigitOrDot (hd u)"
proof -
  from assms obtain c cs where u: "u = c # cs"
    and c: "toLowerCase_char c = CHR ''m'' \<or> toLowerCase_char c = CHR ''s''"
    by (cases u) (auto simp: toLowerCase_def)
  have "\<not> isDigitOrDot c"
  proof
    assume d: "isDigitOrDot c"
    with c have "c = CHR ''m'' \<or> c = CHR ''s''" by (simp add: toLowerCase_char_digit)
    with d show False by (auto simp: isDigitOrDot_def isDigit_def)
  qed
  with u show ?thesis by simp
qed

lemma takeWhile_run:
  assumes "list_all P n" and "u \<noteq> [] \<and> \<not> P (hd u)"
  shows "takeWhile P (n @ u) = n" and "dropWhile P (n @ u) = u"
proof -
  from assms(2) obtain c cs where u: "u = c # cs" and c: "\<not> P c" by (cases u) auto
  from assms(1) have n: "\<forall>x\<in>set n. P x" by (simp add: list_all_iff)
  show "takeWhile P (n @ u) = n" using n c by (simp add: u takeWhile_append2)
  show "dropWhile P (n @ u) = u" using n c by (simp add: u dropWhile_append2)
qed

lemma matchTime_shape:
  assumes "n \<noteq> []" and "list_all isDigitOrDot n"
    and "toLowerCase u = ''ms'' \<or> toLowerCase u = ''s''"
  shows "matchTime (n @ u) = Some (n, u)"
  using assms takeWhile_run [OF assms(2) unit_head [OF assms(3)]]
  by (simp add: matchTime_def)

lemma matchTime_Some:
  assumes "matchTime s = Some (n, u)"
  shows "s = n @ u \<and> n \<noteq> [] \<and> list_all isDigitOrDot n \<and>
         (toLowerCase u = ''ms'' \<or> toLowerCase u = ''s'')"
proof -
  from assms have n: "n = takeWhile isDigitOrDot s" and u: "u = dropWhile isDigitOrDot s"
    and r: "n \<noteq> []" "toLowerCase u = ''ms'' \<or> toLowerCase u = ''s''"
    by (auto simp: matchTime_def Let_def split: if_splits)
  have "list_all isDigitOrDot n"
    unfolding n list_all_iff using set_takeWhileD by fastforce
  with n u r show ?thesis by simp
qed

text \<open>
  \<open>parseTime\<close> returns a number exactly on the strings that are a non-empty run of
  digits and points followed by \<open>ms\<close> or \<open>s\<close> in either case, and the null sentinel
  on every other string; the number is \<open>parseFloat\<close> of the run, times 1000 for
  \<open>s\<close>.
\<close>

theorem parseTime_shape:
  "(parseTime s \<noteq> None) =
     (\<exists>n u. s = n @ u \<and> n \<noteq> [] \<and> list_all isDigitOrDot n \<and>
            (toLowerCase u = ''ms'' \<or> toLowerCase u = ''s'')) \<and>
   (\<forall>n u. s = n @ u \<and> n \<noteq> [] \<and> list_all isDigitOrDot n \<and> toLowerCase u = ''ms'' \<longrightarrow>
      parseTime s = Some (parseFloat n)) \<and>
   (\<forall>n u. s = n @ u \<and> n \<noteq> [] \<and> list_all isDigitOrDot n \<and> toLowerCase u = ''s'' \<longrightarrow>
      parseTime s = Some (js_mul (parseFloat n) (Fin 1000)))"
proof -
  have ms: "parseTime (n @ u) = Some (parseFloat n)"
    if "n \<noteq> []" "list_all isDigitOrDot n" "toLowerCase u = ''ms''" for n u
    using matchTime_shape [of n u] that by (simp add: parseTime_def)
  have sec: "parseTime (n @ u) = Some (js_mul (parseFloat n) (Fin 1000))"
    if "n \<noteq> []" "list_all isDigitOrDot n" "toLowerCase u = ''s''" for n u
    using matchTime_shape [of n u] that by (simp add: parseTime_def)
  have some: "\<exists>n u. s = n @ u \<and> n \<noteq> [] \<and> list_all isDigitOrDot n \<and>
                 (toLowerCase u = ''ms'' \<or> toLowerCase u = ''s'')"
    if "parseTime s \<noteq> None"
  proof -
    from that obtain n u where "matchTime s = Some (n, u)"
      by (auto simp: parseTime_def split: option.splits)
    from matchTime_Some [OF this] show ?thesis by blast
  qed
  show ?thesis using ms sec some by auto
qed

lemma pow10_zero: "pow10 0 = 1"
  by (simp add: pow10_def)

lemma unsignedDecimal_digits:
  assumes "list_all isDigit ip" "list_all isDigit fp" "ip \<noteq> [] \<or> fp \<noteq> []"
  shows "unsignedDecimal (ip @ CHR ''.'' # fp) =
           Some (of_int (digitsVal ip) + of_int (digitsVal fp) / 10 ^ length fp)"
proof -
  have nd: "\<not> isDigit CHR ''.''" by (simp add: isDigit_def)
  from assms(1) have ip: "\<forall>x\<in>set ip. isDigit x" by (simp add: list_all_iff)
  from assms(2) have fp: "\<forall>x\<in>set fp. isDigit x" by (simp add: list_all_iff)
  have t: "takeWhile isDigit (ip @ CHR ''.'' # fp) = ip"
    using ip nd by (simp add: takeWhile_append2)
  have d: "dropWhile isDigit (ip @ CHR ''.'' # fp) = CHR ''.'' # fp"
    using ip nd by (simp add: dropWhile_append2)
  have tf: "takeWhile isDigit fp = fp" using fp by (simp add: takeWhile_eq_all_conv)
  have df: "dropWhile isDigit fp = []" using fp by simp
  show ?thesis
    using assms(3) by (simp add: unsignedDecimal_def Let_def t d tf df exponentPart_def pow10_zero)
qed

lemma parseFloat_decimal:
  assumes "list_all isDigit ip" "list_all isDigit fp" "ip \<noteq> [] \<or> fp \<noteq> []"
  shows "parseFloat (ip @ CHR ''.'' # fp) =
           Fin (of_int (digitsVal ip) + of_int (digitsVal fp) / 10 ^ length fp)"
proof -
  let ?s = "ip @ CHR ''.'' # fp"
  obtain c cs where s: "?s = c # cs" and c: "isDigit c \<or> c = CHR ''.''"
    using assms(1) by (cases ip) auto
  have nw: "\<not> isWhiteSpace c" "c \<noteq> CHR ''-''" "c \<noteq> CHR ''+''" "c \<noteq> CHR ''I''"
    using c by (auto simp: isDigit_def isWhiteSpace_def)
  have "parseFloat (c # cs) = (case unsignedDecimal (c # cs) of None \<Rightarrow> NaN | Some q \<Rightarrow> Fin q)"
    using nw by (simp add: parseFloat_def startsWith_def split: option.split)
  then show ?thesis
    using unsignedDecimal_digits [OF assms] by (simp add: s [symmetric])
qed


lemma parseFloat_digits:
  assumes "list_all isDigit ip" "ip \<noteq> []"
  shows "parseFloat ip = Fin (of_int (digitsVal ip))"
proof -
  obtain c cs where s: "ip = c # cs" and c: "isDigit c"
    using assms by (cases ip) auto
  have nw: "\<not> isWhiteSpace c" "c \<noteq> CHR ''-''" "c \<noteq> CHR ''+''" "c \<noteq> CHR ''I''"
    using c by (auto simp: isDigit_def isWhiteSpace_def)
  from assms(1) have ip: "\<forall>x\<in>set ip. isDigit x" by (simp add: list_all_iff)
  have t: "takeWhile isDigit ip = ip" using ip by (simp add: takeWhile_eq_all_conv)
  have d: "dropWhile isDigit ip = []" using ip by simp
  have u: "unsignedDecimal ip = Some (of_int (digitsVal ip))"
    using assms(2) by (simp add: unsignedDecimal_def Let_def t d exponentPart_def pow10_zero
          digitsVal_def)
  have "parseFloat (c # cs) = (case unsignedDecimal (c # cs) of None \<Rightarrow> NaN | Some q \<Rightarrow> Fin q)"
    using nw by (simp add: parseFloat_def startsWith_def split: option.split)
  with u show ?thesis by (simp add: s [symmetric])
qed

theorem parseTime_shape_witness:
  "parseTime ''1.5s'' = Some (Fin 1500) \<and> parseTime ''1000ms'' = Some (Fin 1000) \<and>
   parseTime ''abc'' = None \<and> parseTime ''2S'' = Some (Fin 2000)"
proof -
  have a: "''1.5s'' = ''1.5'' @ ''s'' \<and> ''1.5'' \<noteq> [] \<and> list_all isDigitOrDot ''1.5'' \<and>
           toLowerCase ''s'' = ''s''"
    by code_simp
  have b: "''1000ms'' = ''1000'' @ ''ms'' \<and> ''1000'' \<noteq> [] \<and> list_all isDigitOrDot ''1000'' \<and>
           toLowerCase ''ms'' = ''ms''"
    by code_simp
  have c: "''2S'' = ''2'' @ ''S'' \<and> ''2'' \<noteq> [] \<and> list_all isDigitOrDot ''2'' \<and>
           toLowerCase ''S'' = ''s''"
    by code_simp
  have v: "parseFloat ''1.5'' = Fin (3 / 2)" "parseFloat ''1000'' = Fin 1000"
    "parseFloat ''2'' = Fin 2"
    by code_simp+
  have n: "\<not> (\<exists>n u. ''abc'' = n @ u \<and> n \<noteq> [] \<and> list_all isDigitOrDot n \<and>
             (toLowerCase u = ''ms'' \<or> toLowerCase u = ''s''))"
    by (auto simp: Cons_eq_append_conv isDigitOrDot_def isDigit_def)
  from parseTime_shape [of "''1.5s''"] a
  have "parseTime ''1.5s'' = Some (js_mul (parseFloat ''1.5'') (Fin 1000))" by blast
  then have 1: "parseTime ''1.5s'' = Some (Fin 1500)" by (simp add: v)
  from parseTime_shape [of "''1000ms''"] b
  have "parseTime ''1000ms'' = Some (parseFloat ''1000'')" by blast
  then have 2: "parseTime ''1000ms'' = Some (Fin 1000)" by (simp add: v)
  from parseTime_shape [of "''abc''"] n
  have 3: "parseTime ''abc'' = None" by blast
  from parseTime_shape [of "''2S''"] c
  have "parseTime ''2S'' = Some (js_mul (parseFloat ''2'') (Fin 1000))" by blast
  then have 4: "parseTime ''2S'' = Some (Fin 2000)" by (simp add: v)
  from 1 2 3 4 show ?thesis by simp
qed


lemma isDigit_isDigitOrDot: "list_all isDigit ds \<Longrightarrow> list_all isDigitOrDot ds"
  by (simp add: list_all_iff isDigitOrDot_def)

text \<open>
  When the run is a decimal number, digits and optionally a point and more digits, the
  result is the value of that number in milliseconds.
\<close>

theorem parseTime_decimal_value:
  assumes "list_all isDigit ip" and "list_all isDigit fp" and "ip \<noteq> []"
  shows "parseTime (ip @ ''ms'') = Some (Fin (of_int (digitsVal ip))) \<and>
         parseTime (ip @ ''s'') = Some (Fin (of_int (digitsVal ip) * 1000)) \<and>
         parseTime ((ip @ CHR ''.'' # fp) @ ''ms'') =
           Some (Fin (of_int (digitsVal ip) + of_int (digitsVal fp) / 10 ^ length fp)) \<and>
         parseTime ((ip @ CHR ''.'' # fp) @ ''s'') =
           Some (Fin ((of_int (digitsVal ip) + of_int (digitsVal fp) / 10 ^ length fp) * 1000))"
proof -
  have u: "toLowerCase ''ms'' = ''ms''" "toLowerCase ''s'' = ''s''" by code_simp+
  have i: "list_all isDigitOrDot ip" using assms(1) by (rule isDigit_isDigitOrDot)
  have f: "list_all isDigitOrDot (ip @ CHR ''.'' # fp)"
    using i isDigit_isDigitOrDot [OF assms(2)] by (simp add: isDigitOrDot_def)
  have vi: "parseFloat ip = Fin (of_int (digitsVal ip))"
    using assms(1,3) by (rule parseFloat_digits)
  have vf: "parseFloat (ip @ CHR ''.'' # fp) =
              Fin (of_int (digitsVal ip) + of_int (digitsVal fp) / 10 ^ length fp)"
    using assms by (simp add: parseFloat_decimal)
  have 1: "parseTime (ip @ ''ms'') = Some (parseFloat ip)"
    using matchTime_shape [of ip "''ms''"] assms(3) i u by (simp add: parseTime_def)
  have 2: "parseTime (ip @ ''s'') = Some (js_mul (parseFloat ip) (Fin 1000))"
    using matchTime_shape [of ip "''s''"] assms(3) i u by (simp add: parseTime_def)
  have 3: "parseTime ((ip @ CHR ''.'' # fp) @ ''ms'') = Some (parseFloat (ip @ CHR ''.'' # fp))"
    using matchTime_shape [of "ip @ CHR ''.'' # fp" "''ms''"] f u by (simp add: parseTime_def)
  have 4: "parseTime ((ip @ CHR ''.'' # fp) @ ''s'') =
             Some (js_mul (parseFloat (ip @ CHR ''.'' # fp)) (Fin 1000))"
    using matchTime_shape [of "ip @ CHR ''.'' # fp" "''s''"] f u by (simp add: parseTime_def)
  show ?thesis unfolding 1 2 3 4 vi vf by simp
qed

theorem parseTime_decimal_value_witness:
  "list_all isDigit ''1'' \<and> list_all isDigit ''5'' \<and>
   parseTime ''1ms'' = Some (Fin 1) \<and> parseTime ''1s'' = Some (Fin 1000) \<and>
   parseTime ''1.5ms'' = Some (Fin (3 / 2)) \<and> parseTime ''1.5s'' = Some (Fin 1500)"
proof -
  have a: "list_all isDigit ''1''" "list_all isDigit ''5''" "''1'' \<noteq> []" by code_simp+
  have d: "digitsVal ''1'' = 1" "digitsVal ''5'' = 5" by code_simp+
  from parseTime_decimal_value [OF a] a show ?thesis by (simp add: d)
qed

text \<open>
  C4. The claim has \<open>parseTime\<close> return the null sentinel, and never an invalid number,
  on every string that is not a number followed by \<open>ms\<close> or \<open>s\<close>. The pattern
  \<open>[\d.]+\<close> also admits runs of points: on \<open>.s\<close> the code returns \<open>NaN\<close>, and
  on \<open>1.2.3s\<close> it returns 1200.
\<close>

theorem C4_point_is_NaN:
  "parseTime ''.s'' = Some NaN \<and> parseTime ''1.2.3s'' = Some (Fin 1200)"
  by code_simp

subsection \<open>Dimensions\<close>

lemma parseNumericAttribute_Nil: "parseNumericAttribute [] = None"
  by (simp add: parseNumericAttribute_def)

lemma length_four:
  "(length xs = 4) = (\<exists>a b c d. xs = [a, b, c, d])"
  by (auto simp: length_Suc_conv numeral_eq_Suc)

lemma dimensionCandidates_chosen:
  "(case dimensionCandidates e of (Some w, Some h) \<Rightarrow> Some (w, h) | _ \<Rightarrow> None) =
     chosenDimensions e"
proof -
  have w: "(case getAttribute e ''width'' of None \<Rightarrow> None
            | Some v \<Rightarrow> if v \<noteq> [] then parseNumericAttribute v else None) =
           numericAttribute e ''width''"
    by (simp add: numericAttribute_def parseNumericAttribute_Nil split: option.splits)
  have h: "(case getAttribute e ''height'' of None \<Rightarrow> None
            | Some v \<Rightarrow> if v \<noteq> [] then parseNumericAttribute v else None) =
           numericAttribute e ''height''"
    by (simp add: numericAttribute_def parseNumericAttribute_Nil split: option.splits)
  have e: "split_whitespace (trim []) = [[]]"
    by (simp add: split_whitespace_def trim_def)
  show ?thesis
    unfolding dimensionCandidates_def chosenDimensions_def w h Let_def
    by (auto simp: length_four e split: option.splits list.splits)
qed

text \<open>
  C5, as the code has it. The claim lets commas separate the components of the bounding
  box; the code splits \<open>viewBox\<close> at white space only, so a box written with commas
  alone has one part and the analysis fails. Amended:
  the dimensions are taken from \<open>width\<close> and \<open>height\<close> when both yield numbers, and
  otherwise from the third and fourth of exactly four components of \<open>viewBox\<close>
  separated by white space. The validation failure is raised when there is no such pair
  or one of its two numbers is less than or equal to zero; the pair is returned when both
  numbers are greater than zero; and whatever is returned is that pair, with neither
  number less than or equal to zero.
\<close>

theorem C5_dimensions:
  "(chosenDimensions e = None \<longrightarrow> extractDimensions e = Inl noDimensions) \<and>
   (\<forall>w h. chosenDimensions e = Some (w, h) \<and> (js_le w (Fin 0) \<or> js_le h (Fin 0)) \<longrightarrow>
      extractDimensions e = Inl noDimensions) \<and>
   (\<forall>w h. chosenDimensions e = Some (w, h) \<and> js_gt w (Fin 0) \<and> js_gt h (Fin 0) \<longrightarrow>
      extractDimensions e = Inr \<lparr>width = w, height = h\<rparr>) \<and>
   (\<forall>d. extractDimensions e = Inr d \<longrightarrow>
      chosenDimensions e = Some (width d, height d) \<and>
      \<not> js_le (width d) (Fin 0) \<and> \<not> js_le (height d) (Fin 0)) \<and>
   isValidationError (Inl noDimensions :: error + SVGDimensions)"
proof -
  have gt: "\<not> js_le a (Fin 0)" if "js_gt a (Fin 0)" for a
    using that by (cases a) (auto simp: js_gt_def js_le_def)
  have v: "isValidationError (Inl noDimensions :: error + SVGDimensions)"
    by (simp add: isValidationError_def noDimensions_def)
  show ?thesis
    using v
    by (auto simp: dimensionCandidates_chosen [symmetric] extractDimensions_def gt
          split: option.splits prod.splits if_splits)
qed

theorem C5_dimensions_witness:
  "extractDimensions boxDoc = Inr \<lparr>width = Fin 100, height = Fin 50\<rparr> \<and>
   extractDimensions sizedDoc = Inr \<lparr>width = Fin 100, height = Fin (101 / 2)\<rparr> \<and>
   extractDimensions zeroSizedDoc = Inl noDimensions \<and>
   extractDimensions bareDoc = Inl noDimensions"
proof -
  have b: "chosenDimensions boxDoc = Some (Fin 100, Fin 50)" by code_simp
  have s: "chosenDimensions sizedDoc = Some (Fin 100, Fin (101 / 2))" by code_simp
  have z: "chosenDimensions zeroSizedDoc = Some (Fin 0, Fin 0)" by code_simp
  have n: "chosenDimensions bareDoc = None" by code_simp
  have g: "js_gt (Fin 100) (Fin 0)" "js_gt (Fin 50) (Fin 0)" "js_gt (Fin (101 / 2)) (Fin 0)"
    "js_le (Fin 0) (Fin 0)"
    by (simp_all add: js_gt_def js_le_def)
  from C5_dimensions [of boxDoc] b g
  have 1: "extractDimensions boxDoc = Inr \<lparr>width = Fin 100, height = Fin 50\<rparr>" by blast
  from C5_dimensions [of sizedDoc] s g
  have 2: "extractDimensions sizedDoc = Inr \<lparr>width = Fin 100, height = Fin (101 / 2)\<rparr>"
    by blast
  from C5_dimensions [of zeroSizedDoc] z g
  have 3: "extractDimensions zeroSizedDoc = Inl noDimensions" by blast
  from C5_dimensions [of bareDoc] n
  have 4: "extractDimensions bareDoc = Inl noDimensions" by blast
  from 1 2 3 4 show ?thesis by simp
qed

text \<open>\<open>viewBox="0,0,100,50"\<close> and no other attribute: read with commas as separators
  the box has the components 0, 0, 100 and 50, and the code raises the failure.\<close>

theorem C5_comma_box_counterexample:
  "numericAttribute commaBoxDoc ''width'' = None \<and>
   numericAttribute commaBoxDoc ''height'' = None \<and>
   getAttribute commaBoxDoc ''viewBox'' = Some ''0,0,100,50'' \<and>
   specBoxComponents ''0,0,100,50'' = [''0'', ''0'', ''100'', ''50''] \<and>
   parseFloat ''100'' = Fin 100 \<and> parseFloat ''50'' = Fin 50 \<and>
   js_gt (Fin 100) (Fin 0) \<and> js_gt (Fin 50) (Fin 0) \<and>
   extractDimensions commaBoxDoc = Inl noDimensions"
  by code_simp

subsection \<open>Total span and end time\<close>

lemma parseTime_Nil: "parseTime [] = None"
  by (simp add: parseTime_def matchTime_def)

lemma parseFloat_Nil: "parseFloat [] = NaN"
  by (simp add: parseFloat_def startsWith_def unsignedDecimal_def)

lemma parseTime_0s: "parseTime ''0s'' = Some (Fin 0)"
  by code_simp

lemma js_gt_iff_not_le: "a \<noteq> NaN \<Longrightarrow> js_gt a (Fin 0) = (\<not> js_le a (Fin 0))"
  by (cases a) (auto simp: js_gt_def js_le_def)

lemma baseDurationOf_spec: "baseDurationOf e = specBaseDuration e"
  by (simp add: baseDurationOf_def specBaseDuration_def parseTime_Nil split: option.splits)

lemma beginTimeOf_spec: "beginTimeOf e = specStartOffset e"
  by (simp add: beginTimeOf_def beginAttrOf_def specStartOffset_def parseTime_Nil parseTime_0s
        split: option.splits)

lemma repeatCountOf_spec:
  "getAttribute e ''repeatCount'' \<noteq> Some ''indefinite'' \<Longrightarrow> repeatCountOf e = specRepeatCount e"
  by (auto simp: repeatCountOf_def specRepeatCount_def parseFloat_Nil isNaN_def Let_def
        js_gt_iff_not_le split: option.splits)

lemma repeatDurationOf_spec:
  "getAttribute e ''repeatDur'' \<noteq> Some ''indefinite'' \<Longrightarrow>
     repeatDurationOf e = (case getAttribute e ''repeatDur'' of None \<Rightarrow> None | Some r \<Rightarrow> parseTime r)"
  by (auto simp: repeatDurationOf_def parseTime_Nil split: option.splits)

lemma totalDurationOf_spec:
  assumes "noIndefinite e"
  shows "totalDurationOf e = specTotalSpan e"
proof -
  from assms have c: "repeatCountOf e = specRepeatCount e"
    by (simp add: noIndefinite_def repeatCountOf_spec)
  from assms have d: "repeatDurationOf e =
      (case getAttribute e ''repeatDur'' of None \<Rightarrow> None | Some r \<Rightarrow> parseTime r)"
    by (simp add: noIndefinite_def repeatDurationOf_spec)
  show ?thesis
    by (simp add: totalDurationOf_def specTotalSpan_def c d baseDurationOf_spec
          split: option.splits)
qed

text \<open>
  C8, as the code has it. The claim gives every element without an \<open>indefinite\<close>
  sentinel the end time start offset plus total span; the code gives the window no end
  time when the span exceeds one hour. Amended: for
  every such element the total span the code computes is the parsed repeat duration when
  \<open>repeatDur\<close> is present and parseable, and otherwise base duration times repeat
  count, the repeat count being 1 when \<open>repeatCount\<close> is absent, not parseable or not
  positive; and when that span does not exceed 3600000 ms, the window is finite and its
  end time is the parsed start offset (0 when \<open>begin\<close> is absent or not parseable) plus
  the span.
\<close>

theorem C8_span_and_end_time:
  assumes "noIndefinite e"
  shows "totalDurationOf e = specTotalSpan e \<and>
         (\<not> js_gt (specTotalSpan e) (Fin 3600000) \<longrightarrow>
            \<not> isInfinite (parseAnimationTiming e) \<and>
            endTime (parseAnimationTiming e) =
              Some (js_add (specStartOffset e) (specTotalSpan e)))"
  using assms totalDurationOf_spec [OF assms]
  by (simp add: parseAnimationTiming_def noIndefinite_def MAX_REASONABLE_DURATION_def
        beginTimeOf_spec)

theorem C8_span_and_end_time_witness:
  "noIndefinite delayedRepeat \<and> totalDurationOf delayedRepeat = Fin 6000 \<and>
   endTime (parseAnimationTiming delayedRepeat) = Some (Fin 7000) \<and>
   noIndefinite repeatDurElement \<and> totalDurationOf repeatDurElement = Fin 4000 \<and>
   endTime (parseAnimationTiming repeatDurElement) = Some (Fin 4000)"
proof -
  have n1: "noIndefinite delayedRepeat" by code_simp
  have s1: "specTotalSpan delayedRepeat = Fin 6000" by code_simp
  have o1: "specStartOffset delayedRepeat = Fin 1000" by code_simp
  have n2: "noIndefinite repeatDurElement" by code_simp
  have s2: "specTotalSpan repeatDurElement = Fin 4000" by code_simp
  have o2: "specStartOffset repeatDurElement = Fin 0" by code_simp
  from C8_span_and_end_time [OF n1] C8_span_and_end_time [OF n2] n1 n2
  show ?thesis by (simp add: s1 o1 s2 o2 js_gt_def)
qed

text \<open>\<open>dur="1s" repeatCount="5000"\<close>: no sentinel, start offset 0, total span
  5000000, and the window has no end time.\<close>

theorem C8_long_span_counterexample:
  "noIndefinite longRepeat \<and>
   specStartOffset longRepeat = Fin 0 \<and> specTotalSpan longRepeat = Fin 5000000 \<and>
   endTime (parseAnimationTiming longRepeat) = None \<and>
   endTime (parseAnimationTiming longRepeat) \<noteq>
     Some (js_add (specStartOffset longRepeat) (specTotalSpan longRepeat))"
  by code_simp

subsection \<open>Spans longer than one hour\<close>

text \<open>
  C3. An element that carries no \<open>indefinite\<close> sentinel and whose total span (the
  repeat duration when \<open>repeatDur\<close> is present and parseable, else base duration times
  repeat count) exceeds 3600000 ms gets an infinite window that is not explicitly
  infinite and keeps the parsed base duration as its base duration;
  \<open>dur="1s" repeatCount="5000"\<close> is the witness, with base duration 1000.
\<close>

theorem C3_long_span_infinite:
  assumes "noIndefinite e"
    and "js_gt (specTotalSpan e) (Fin 3600000)"
  shows "parseAnimationTiming e =
           \<lparr>endTime = None, isInfinite = True, baseDuration = Some (specBaseDuration e),
            isExplicitInfinite = False\<rparr>"
  using assms totalDurationOf_spec [OF assms(1)]
  by (simp add: parseAnimationTiming_def noIndefinite_def MAX_REASONABLE_DURATION_def
        baseDurationOf_spec)

theorem C3_long_span_infinite_witness:
  "noIndefinite longRepeat \<and> specTotalSpan longRepeat = Fin 5000000 \<and>
   js_gt (Fin 5000000) (Fin 3600000) \<and>
   parseAnimationTiming longRepeat =
     \<lparr>endTime = None, isInfinite = True, baseDuration = Some (Fin 1000),
      isExplicitInfinite = False\<rparr>"
proof -
  have n: "noIndefinite longRepeat" by code_simp
  have s: "specTotalSpan longRepeat = Fin 5000000" by code_simp
  have t: "js_gt (specTotalSpan longRepeat) (Fin 3600000)" by (simp add: s js_gt_def)
  have b: "specBaseDuration longRepeat = Fin 1000" by code_simp
  show ?thesis using C3_long_span_infinite [OF n t] n s t b by simp
qed

subsection \<open>What the loops collect\<close>

lemma fold_collect_seenAnimations:
  "seenAnimations (fold collect ts st) = (seenAnimations st \<or> ts \<noteq> [])"
  by (induction ts arbitrary: st)
     (auto simp: collect_def Let_def split: option.splits)

lemma fold_collect_seenInfinite:
  "seenInfinite (fold collect ts st) = (seenInfinite st \<or> list_ex isInfinite ts)"
  by (induction ts arbitrary: st)
     (auto simp: collect_def Let_def split: option.splits)

lemma fold_collect_loopDurations:
  "loopDurations (fold collect ts st) = loopDurations st @ infiniteBaseDurations ts"
  by (induction ts arbitrary: st)
     (auto simp: collect_def Let_def infiniteBaseDurations_def positiveBase_def
           split: option.splits)

lemma fold_collect_infiniteLoopDurations:
  "infiniteLoopDurations (fold collect ts st) =
     infiniteLoopDurations st @ explicitForeverDurations ts"
  by (induction ts arbitrary: st)
     (auto simp: collect_def Let_def explicitForeverDurations_def positiveBase_def
           split: option.splits)

lemma fold_collect_maxEndTime:
  "maxEndTime (fold collect ts st) =
     fold (\<lambda>e m. Math_max2 m e) (finiteEndTimes ts) (maxEndTime st)"
  by (induction ts arbitrary: st)
     (auto simp: collect_def Let_def finiteEndTimes_def split: option.splits)

lemma loopDuration_reduceTimings:
  "loopDuration (reduceTimings ts) =
     (if list_ex isInfinite ts \<and> infiniteBaseDurations ts \<noteq> [] then
        (if explicitForeverDurations ts \<noteq> [] then
           (if filter (\<lambda>d. js_le d REASONABLE_LOOP) (explicitForeverDurations ts) \<noteq> []
            then Some (Math_max (filter (\<lambda>d. js_le d REASONABLE_LOOP) (explicitForeverDurations ts)))
            else Some (Math_min (explicitForeverDurations ts)))
         else Some (Math_max (infiniteBaseDurations ts)))
      else None)"
  by (simp add: reduceTimings_def chooseLoopDuration_def Let_def initialState_def
        fold_collect_seenInfinite fold_collect_loopDurations fold_collect_infiniteLoopDurations
        REASONABLE_LOOP_def)

lemma hasInfiniteAnimations_reduceTimings:
  "hasInfiniteAnimations (reduceTimings ts) = list_ex isInfinite ts"
  by (simp add: reduceTimings_def Let_def initialState_def fold_collect_seenInfinite)

lemma hasAnimations_reduceTimings:
  "hasAnimations (reduceTimings ts) = (ts \<noteq> [])"
  by (simp add: reduceTimings_def Let_def initialState_def fold_collect_seenAnimations)

lemma duration_reduceTimings:
  "duration (reduceTimings ts) =
     (if ts \<noteq> [] \<and> \<not> list_ex isInfinite ts \<and>
         js_gt (fold (\<lambda>e m. Math_max2 m e) (finiteEndTimes ts) (Fin 0)) (Fin 0)
      then Some (fold (\<lambda>e m. Math_max2 m e) (finiteEndTimes ts) (Fin 0)) else None)"
  by (simp add: reduceTimings_def Let_def initialState_def fold_collect_seenInfinite
        fold_collect_seenAnimations fold_collect_maxEndTime)

lemma positiveBase_gt: "x \<in> set (positiveBase t) \<Longrightarrow> js_gt x (Fin 0)"
  by (auto simp: positiveBase_def split: option.splits if_splits)

lemma infiniteBaseDurations_gt:
  "x \<in> set (infiniteBaseDurations ts) \<Longrightarrow> js_gt x (Fin 0)"
  by (auto simp: infiniteBaseDurations_def dest: positiveBase_gt)

lemma explicitForeverDurations_subset:
  "set (explicitForeverDurations ts) \<subseteq> set (infiniteBaseDurations ts)"
  by (auto simp: explicitForeverDurations_def infiniteBaseDurations_def)

lemma explicitForeverDurations_gt:
  "x \<in> set (explicitForeverDurations ts) \<Longrightarrow> js_gt x (Fin 0)"
  using explicitForeverDurations_subset infiniteBaseDurations_gt by blast

lemma infiniteBaseDurations_ex:
  assumes "infiniteBaseDurations ts \<noteq> []"
  shows "list_ex isInfinite ts"
proof (rule ccontr)
  assume "\<not> list_ex isInfinite ts"
  then have "filter isInfinite ts = []"
    by (simp add: list_ex_iff filter_empty_conv)
  then have "infiniteBaseDurations ts = []"
    by (simp add: infiniteBaseDurations_def)
  with assms show False by simp
qed

lemma gt_zero_not_NaN: "js_gt x (Fin 0) \<Longrightarrow> x \<noteq> NaN"
  by auto

lemma explicitForeverDurations_no_NaN: "NaN \<notin> set (explicitForeverDurations ts)"
  using explicitForeverDurations_gt gt_zero_not_NaN by blast

lemma infiniteBaseDurations_no_NaN: "NaN \<notin> set (infiniteBaseDurations ts)"
  using infiniteBaseDurations_gt gt_zero_not_NaN by blast

lemma loopDuration_reduceTimings_gt:
  assumes "loopDuration (reduceTimings ts) = Some d"
  shows "js_gt d (Fin 0)"
proof -
  let ?E = "explicitForeverDurations ts"
  let ?R = "filter (\<lambda>d. js_le d REASONABLE_LOOP) ?E"
  let ?L = "infiniteBaseDurations ts"
  have noNaN: "NaN \<notin> set ?R" "NaN \<notin> set ?E" "NaN \<notin> set ?L"
    using explicitForeverDurations_no_NaN infiniteBaseDurations_no_NaN by auto
  from assms consider
      (R) "?R \<noteq> []" "d = Math_max ?R"
    | (E) "?E \<noteq> []" "d = Math_min ?E"
    | (L) "?L \<noteq> []" "d = Math_max ?L"
    by (auto simp: loopDuration_reduceTimings split: if_splits)
  then show ?thesis
  proof cases
    case R
    from Math_max_isMaximumOf [OF R(1) noNaN(1)] have "d \<in> set ?E"
      by (simp add: R(2) isMaximumOf_def)
    then show ?thesis by (rule explicitForeverDurations_gt)
  next
    case E
    from Math_min_isMinimumOf [OF E(1) noNaN(2)] have "d \<in> set ?E"
      by (simp add: E(2) isMinimumOf_def)
    then show ?thesis by (rule explicitForeverDurations_gt)
  next
    case L
    from Math_max_isMaximumOf [OF L(1) noNaN(3)] have "d \<in> set ?L"
      by (simp add: L(2) isMaximumOf_def)
    then show ?thesis by (rule infiniteBaseDurations_gt)
  qed
qed

lemma infiniteBaseDurations_empty:
  assumes "\<forall>t\<in>set ts. isInfinite t \<longrightarrow> positiveBase t = []"
  shows "infiniteBaseDurations ts = []"
  using assms by (induction ts) (auto simp: infiniteBaseDurations_def)

lemma indefiniteDoc_analysis: "analyzeSVG (Some indefiniteDoc) = Inr unknownLoopAnalysis"
  by code_simp

lemma noDurDoc_analysis: "analyzeSVG (Some noDurDoc) = Inr unknownLoopAnalysis"
  by code_simp

subsection \<open>The record the analyzer returns\<close>

lemma reduceTimings_nullness:
  "(duration (reduceTimings ts) \<noteq> None \<longrightarrow>
      hasAnimations (reduceTimings ts) \<and> \<not> hasInfiniteAnimations (reduceTimings ts)) \<and>
   (loopDuration (reduceTimings ts) \<noteq> None \<longrightarrow> hasInfiniteAnimations (reduceTimings ts))"
  by (simp add: reduceTimings_def chooseLoopDuration_def Let_def)

text \<open>A successful \<open>analyzeSVG\<close> had an \<open>svg\<close> root with dimensions, and copies the
  four fields of \<open>analyzeAnimations\<close>.\<close>

lemma analyzeSVG_Inr:
  assumes "analyzeSVG documentElement = Inr r"
  obtains svgElement dims where "documentElement = Some svgElement"
    and "tagName svgElement = ''svg''"
    and "extractDimensions svgElement = Inr dims"
    and "hasAnimations r = hasAnimations (analyzeAnimations svgElement)"
    and "duration r = duration (analyzeAnimations svgElement)"
    and "hasInfiniteAnimations r = hasInfiniteAnimations (analyzeAnimations svgElement)"
    and "loopDuration r = loopDuration (analyzeAnimations svgElement)"
    and "dimensions r = dims"
  using assms
  by (auto simp: analyzeSVG_def Let_def split: option.splits if_splits sum.splits)

lemma finiteDoc_analysis: "analyzeSVG (Some finiteDoc) = Inr finiteAnalysis"
  by code_simp

lemma placeholderDoc_analysis: "analyzeSVG (Some placeholderDoc) = Inr placeholderAnalysis"
  by code_simp

text \<open>
  C6. Whenever \<open>analyzeSVG\<close> accepts a document, the result has a non-null
  \<open>duration\<close> (the total duration) only if \<open>hasAnimations\<close> is true and
  \<open>hasInfiniteAnimations\<close> is false, and a non-null \<open>loopDuration\<close> only if
  \<open>hasInfiniteAnimations\<close> is true.
\<close>

theorem C6_null_fields:
  assumes "analyzeSVG documentElement = Inr r"
  shows "(duration r \<noteq> None \<longrightarrow> hasAnimations r \<and> \<not> hasInfiniteAnimations r) \<and>
         (loopDuration r \<noteq> None \<longrightarrow> hasInfiniteAnimations r)"
proof -
  from assms obtain svgElement where
    "hasAnimations r = hasAnimations (analyzeAnimations svgElement)"
    "duration r = duration (analyzeAnimations svgElement)"
    "hasInfiniteAnimations r = hasInfiniteAnimations (analyzeAnimations svgElement)"
    "loopDuration r = loopDuration (analyzeAnimations svgElement)"
    by (rule analyzeSVG_Inr)
  then show ?thesis
    using reduceTimings_nullness [of "map parseAnimationTiming (animationElements svgElement)"]
    by (simp add: analyzeAnimations_def)
qed

theorem C6_null_fields_witness:
  "analyzeSVG (Some finiteDoc) = Inr finiteAnalysis \<and>
   duration finiteAnalysis \<noteq> None \<and>
   hasAnimations finiteAnalysis \<and> \<not> hasInfiniteAnimations finiteAnalysis \<and>
   analyzeSVG (Some placeholderDoc) = Inr placeholderAnalysis \<and>
   loopDuration placeholderAnalysis \<noteq> None \<and>
   hasInfiniteAnimations placeholderAnalysis"
proof -
  have d: "duration finiteAnalysis \<noteq> None" by (simp add: finiteAnalysis_def)
  have l: "loopDuration placeholderAnalysis \<noteq> None" by (simp add: placeholderAnalysis_def)
  show ?thesis
    using C6_null_fields [OF finiteDoc_analysis] C6_null_fields [OF placeholderDoc_analysis] d l
      finiteDoc_analysis placeholderDoc_analysis
    by blast
qed

subsection \<open>The loop duration is positive\<close>

text \<open>
  C9. Whenever \<open>analyzeSVG\<close> returns a non-null \<open>loopDuration\<close>, it is greater than
  zero. Base durations that are null or not greater than zero are not collected: when the
  document has an infinite window and every infinite window has such a base duration, the
  result has \<open>hasInfiniteAnimations\<close> true and \<open>loopDuration\<close> null. The witness
  has the documents with only \<open>dur="indefinite"\<close> and with only
  \<open>repeatCount="indefinite"\<close>, where the base duration defaults to 0.
\<close>

theorem C9_loop_duration_positive:
  assumes "analyzeSVG (Some svgElement) = Inr r"
  shows "(\<forall>d. loopDuration r = Some d \<longrightarrow> js_gt d (Fin 0)) \<and>
         (list_ex isInfinite (timings svgElement) \<and>
          (\<forall>t\<in>set (timings svgElement). isInfinite t \<longrightarrow>
             baseDuration t = None \<or> (\<exists>b. baseDuration t = Some b \<and> \<not> js_gt b (Fin 0)))
          \<longrightarrow> hasInfiniteAnimations r \<and> loopDuration r = None)"
proof -
  let ?ts = "timings svgElement"
  from assms have l: "loopDuration r = loopDuration (reduceTimings ?ts)"
    and h: "hasInfiniteAnimations r = hasInfiniteAnimations (reduceTimings ?ts)"
    by (auto elim!: analyzeSVG_Inr simp: analyzeAnimations_def timings_def)
  have pos: "js_gt d (Fin 0)" if "loopDuration r = Some d" for d
    using that loopDuration_reduceTimings_gt [of ?ts d] by (simp add: l)
  have none: "hasInfiniteAnimations r \<and> loopDuration r = None"
    if i: "list_ex isInfinite ?ts"
      and b: "\<forall>t\<in>set ?ts. isInfinite t \<longrightarrow>
                baseDuration t = None \<or> (\<exists>b. baseDuration t = Some b \<and> \<not> js_gt b (Fin 0))"
  proof -
    from b have "\<forall>t\<in>set ?ts. isInfinite t \<longrightarrow> positiveBase t = []"
      by (auto simp: positiveBase_def)
    then have "infiniteBaseDurations ?ts = []" by (rule infiniteBaseDurations_empty)
    with i show ?thesis
      by (simp add: l h loopDuration_reduceTimings hasInfiniteAnimations_reduceTimings)
  qed
  from pos none show ?thesis by blast
qed

theorem C9_loop_duration_positive_witness:
  "analyzeSVG (Some placeholderDoc) = Inr placeholderAnalysis \<and>
   loopDuration placeholderAnalysis = Some (Fin 5000) \<and> js_gt (Fin 5000) (Fin 0) \<and>
   analyzeSVG (Some indefiniteDoc) = Inr unknownLoopAnalysis \<and>
   analyzeSVG (Some noDurDoc) = Inr unknownLoopAnalysis \<and>
   baseDurationOf (animate [(''repeatCount'', ''indefinite'')]) = Fin 0 \<and>
   hasInfiniteAnimations unknownLoopAnalysis \<and> loopDuration unknownLoopAnalysis = None"
proof -
  have p: "loopDuration placeholderAnalysis = Some (Fin 5000)"
    by (simp add: placeholderAnalysis_def)
  from C9_loop_duration_positive [OF placeholderDoc_analysis] p
  have g: "js_gt (Fin 5000) (Fin 0)" by blast
  have t1: "timings indefiniteDoc =
              [\<lparr>endTime = None, isInfinite = True, baseDuration = None,
                isExplicitInfinite = False\<rparr>]"
    by code_simp
  have t2: "timings noDurDoc =
              [\<lparr>endTime = None, isInfinite = True, baseDuration = Some (Fin 0),
                isExplicitInfinite = True\<rparr>]"
    by code_simp
  have h1: "list_ex isInfinite (timings indefiniteDoc) \<and>
            (\<forall>t\<in>set (timings indefiniteDoc). isInfinite t \<longrightarrow>
               baseDuration t = None \<or> (\<exists>b. baseDuration t = Some b \<and> \<not> js_gt b (Fin 0)))"
    by (simp add: t1)
  have h2: "list_ex isInfinite (timings noDurDoc) \<and>
            (\<forall>t\<in>set (timings noDurDoc). isInfinite t \<longrightarrow>
               baseDuration t = None \<or> (\<exists>b. baseDuration t = Some b \<and> \<not> js_gt b (Fin 0)))"
    by (simp add: t2 js_gt_def)
  from C9_loop_duration_positive [OF indefiniteDoc_analysis] h1
  have u: "hasInfiniteAnimations unknownLoopAnalysis \<and> loopDuration unknownLoopAnalysis = None"
    by blast
  from C9_loop_duration_positive [OF noDurDoc_analysis] h2
  have u': "hasInfiniteAnimations unknownLoopAnalysis \<and> loopDuration unknownLoopAnalysis = None"
    by blast
  have b: "baseDurationOf (animate [(''repeatCount'', ''indefinite'')]) = Fin 0"
    by code_simp
  from placeholderDoc_analysis p g indefiniteDoc_analysis noDurDoc_analysis b u
  show ?thesis by simp
qed

subsection \<open>The loop duration of explicitly infinite animations\<close>

text \<open>
  C1, as the code has it. The claim takes the maximum and the minimum over the base-loop
  durations of all explicit-forever windows; the code collects a base duration only when
  it is greater than zero, so a window with \<open>dur="0s"\<close> and
  \<open>repeatCount="indefinite"\<close> does not take part. Amended: when the document has an
  explicit-forever base-loop duration greater than zero, \<open>loopDuration\<close> is the maximum
  of those of them that are at most 600000 ms when there is one, and otherwise the minimum
  of all of them; in both cases the document has infinite animations. The witness has
  the two documents of the claim: \<open>5s\<close> with \<open>44444s\<close> gives 5000, \<open>700s\<close> with
  \<open>900s\<close> gives 700000.
\<close>

theorem C1_explicit_forever:
  assumes "explicitForeverDurations (timings svgElement) \<noteq> []"
  shows "(filter (\<lambda>d. js_le d REASONABLE_LOOP) (explicitForeverDurations (timings svgElement)) \<noteq> []
            \<longrightarrow> (\<exists>m. loopDuration (analyzeAnimations svgElement) = Some m \<and>
                  isMaximumOf m (filter (\<lambda>d. js_le d REASONABLE_LOOP)
                                  (explicitForeverDurations (timings svgElement))))) \<and>
         (filter (\<lambda>d. js_le d REASONABLE_LOOP) (explicitForeverDurations (timings svgElement)) = []
            \<longrightarrow> (\<exists>m. loopDuration (analyzeAnimations svgElement) = Some m \<and>
                  isMinimumOf m (explicitForeverDurations (timings svgElement)))) \<and>
         hasInfiniteAnimations (analyzeAnimations svgElement)"
proof -
  let ?ts = "timings svgElement"
  let ?E = "explicitForeverDurations ?ts"
  let ?R = "filter (\<lambda>d. js_le d REASONABLE_LOOP) ?E"
  have a: "analyzeAnimations svgElement = reduceTimings ?ts"
    by (simp add: analyzeAnimations_def timings_def)
  from assms explicitForeverDurations_subset [of ?ts]
  have L: "infiniteBaseDurations ?ts \<noteq> []" by (cases ?E) auto
  then have i: "list_ex isInfinite ?ts" by (rule infiniteBaseDurations_ex)
  have noNaN: "NaN \<notin> set ?R" "NaN \<notin> set ?E"
    using explicitForeverDurations_no_NaN by auto
  have "isMaximumOf (Math_max ?R) ?R" if "?R \<noteq> []"
    using that noNaN(1) by (rule Math_max_isMaximumOf)
  moreover have "isMinimumOf (Math_min ?E) ?E"
    using assms noNaN(2) by (rule Math_min_isMinimumOf)
  ultimately show ?thesis
    using assms L i
    by (simp add: a loopDuration_reduceTimings hasInfiniteAnimations_reduceTimings)
qed

theorem C1_explicit_forever_witness:
  "explicitForeverDurations (timings placeholderDoc) = [Fin 5000, Fin 44444000] \<and>
   loopDuration (analyzeAnimations placeholderDoc) = Some (Fin 5000) \<and>
   explicitForeverDurations (timings allPlaceholderDoc) = [Fin 700000, Fin 900000] \<and>
   loopDuration (analyzeAnimations allPlaceholderDoc) = Some (Fin 700000)"
proof -
  have E1: "explicitForeverDurations (timings placeholderDoc) = [Fin 5000, Fin 44444000]"
    by code_simp
  have R1: "filter (\<lambda>d. js_le d REASONABLE_LOOP) (explicitForeverDurations (timings placeholderDoc))
              = [Fin 5000]"
    by (simp add: E1 REASONABLE_LOOP_def js_le_def)
  from C1_explicit_forever [of placeholderDoc] E1 R1
  obtain m where m: "loopDuration (analyzeAnimations placeholderDoc) = Some m"
    "isMaximumOf m [Fin 5000]" by auto
  from m(2) have "m = Fin 5000" by (simp add: isMaximumOf_def)
  with m(1) have l1: "loopDuration (analyzeAnimations placeholderDoc) = Some (Fin 5000)"
    by simp
  have E2: "explicitForeverDurations (timings allPlaceholderDoc) = [Fin 700000, Fin 900000]"
    by code_simp
  have R2: "filter (\<lambda>d. js_le d REASONABLE_LOOP) (explicitForeverDurations (timings allPlaceholderDoc))
              = []"
    by (simp add: E2 REASONABLE_LOOP_def js_le_def)
  from C1_explicit_forever [of allPlaceholderDoc] E2 R2
  obtain n where n: "loopDuration (analyzeAnimations allPlaceholderDoc) = Some n"
    "isMinimumOf n [Fin 700000, Fin 900000]" by auto
  from n(2) have "n = Fin 700000" by (auto simp: isMinimumOf_def js_le_def)
  with n(1) have l2: "loopDuration (analyzeAnimations allPlaceholderDoc) = Some (Fin 700000)"
    by simp
  from E1 l1 E2 l2 show ?thesis by simp
qed

text \<open>\<open>dur="0s"\<close> and \<open>dur="700s"\<close>, both with \<open>repeatCount="indefinite"\<close>: the
  base-loop durations of the explicit-forever windows are 0 and 700000, the only one at
  most 600000 is 0, and the code returns 700000.\<close>

theorem C1_zero_duration_counterexample:
  "list_ex isInfinite (timings zeroBaseDoc) \<and>
   allExplicitForeverDurations (timings zeroBaseDoc) = [Fin 0, Fin 700000] \<and>
   filter (\<lambda>d. js_le d REASONABLE_LOOP) (allExplicitForeverDurations (timings zeroBaseDoc)) =
     [Fin 0] \<and>
   isMaximumOf (Fin 0) [Fin 0] \<and>
   loopDuration (analyzeAnimations zeroBaseDoc) = Some (Fin 700000)"
  by code_simp

subsection \<open>The total duration of finite animations\<close>

lemma finite_window_endTime:
  "\<not> isInfinite (parseAnimationTiming e) \<Longrightarrow> endTime (parseAnimationTiming e) \<noteq> None"
  by (simp add: parseAnimationTiming_def split: if_splits)

lemma finiteEndTimes_nonempty:
  assumes "timings svgElement \<noteq> []" and "\<not> list_ex isInfinite (timings svgElement)"
  shows "finiteEndTimes (timings svgElement) \<noteq> []"
proof -
  from assms(1) obtain e es where es: "animationElements svgElement = e # es"
    by (cases "animationElements svgElement") (auto simp: timings_def)
  with assms(2) have "\<not> isInfinite (parseAnimationTiming e)"
    by (simp add: timings_def)
  then obtain x where "endTime (parseAnimationTiming e) = Some x"
    "\<not> isInfinite (parseAnimationTiming e)"
    using finite_window_endTime by blast
  then show ?thesis
    by (simp add: timings_def es finiteEndTimes_def)
qed

lemma fold_max_from_zero:
  assumes "E \<noteq> []" and "NaN \<notin> set E"
  shows "isMaximumOf (Math_max E) E \<and>
         (if js_gt (fold (\<lambda>e m. Math_max2 m e) E (Fin 0)) (Fin 0)
          then Some (fold (\<lambda>e m. Math_max2 m e) E (Fin 0)) else None) =
         (if js_gt (Math_max E) (Fin 0) then Some (Math_max E) else None)"
proof -
  let ?r = "fold (\<lambda>e m. Math_max2 m e) E (Fin 0)"
  let ?M = "Math_max E"
  have M: "isMaximumOf ?M E" using assms by (rule Math_max_isMaximumOf)
  then have Min: "?M \<in> set E" and Mge: "list_all (\<lambda>x. js_le x ?M) E"
    by (simp_all add: isMaximumOf_def)
  from fold_max_bounds [OF assms(2), of "Fin 0"]
  have r: "?r \<in> insert (Fin 0) (set E)" "js_le (Fin 0) ?r" "list_all (\<lambda>x. js_le x ?r) E"
    by simp_all
  from Min r(3) have Mr: "js_le ?M ?r" by (simp add: list_all_iff)
  show ?thesis
  proof (cases "?r \<in> set E")
    case True
    with Mge have "js_le ?r ?M" by (simp add: list_all_iff)
    with Mr have "?r = ?M" by (simp add: js_le_antisym)
    with M show ?thesis by simp
  next
    case False
    with r(1) have z: "?r = Fin 0" by simp
    with Mr have "js_le ?M (Fin 0)" by simp
    then have "\<not> js_gt ?M (Fin 0)" by (cases ?M) (auto simp: js_le_def js_gt_def)
    with M z show ?thesis by (simp add: js_gt_def)
  qed
qed

text \<open>
  When a document has an animation element, no infinite window and no end time that is
  \<open>NaN\<close>, \<open>duration\<close> is the maximum of the end times, and null when that maximum is
  not greater than zero.
\<close>

theorem finite_reduction_maximum:
  assumes "timings svgElement \<noteq> []"
    and "\<not> list_ex isInfinite (timings svgElement)"
    and "NaN \<notin> set (finiteEndTimes (timings svgElement))"
  shows "\<exists>M. isMaximumOf M (finiteEndTimes (timings svgElement)) \<and>
             duration (analyzeAnimations svgElement) =
               (if js_gt M (Fin 0) then Some M else None)"
proof -
  let ?E = "finiteEndTimes (timings svgElement)"
  have E: "?E \<noteq> []" using assms(1,2) by (rule finiteEndTimes_nonempty)
  have "duration (analyzeAnimations svgElement) =
          (if js_gt (fold (\<lambda>e m. Math_max2 m e) ?E (Fin 0)) (Fin 0)
           then Some (fold (\<lambda>e m. Math_max2 m e) ?E (Fin 0)) else None)"
    using assms(1,2) by (simp add: analyzeAnimations_def timings_def duration_reduceTimings)
  with fold_max_from_zero [OF E assms(3)] show ?thesis by auto
qed

theorem finite_reduction_maximum_witness:
  "finiteEndTimes (timings finiteDoc) = [Fin 6000, Fin 2000] \<and>
   duration (analyzeAnimations finiteDoc) = Some (Fin 6000)"
proof -
  have t: "timings finiteDoc \<noteq> []" by code_simp
  have i: "\<not> list_ex isInfinite (timings finiteDoc)" by code_simp
  have E: "finiteEndTimes (timings finiteDoc) = [Fin 6000, Fin 2000]" by code_simp
  have n: "NaN \<notin> set (finiteEndTimes (timings finiteDoc))" by (simp add: E)
  from finite_reduction_maximum [OF t i n] obtain M where
    M: "isMaximumOf M [Fin 6000, Fin 2000]"
    and d: "duration (analyzeAnimations finiteDoc) = (if js_gt M (Fin 0) then Some M else None)"
    by (auto simp: E)
  from M have "M = Fin 6000" by (auto simp: isMaximumOf_def js_le_def)
  with d E show ?thesis by (simp add: js_gt_def)
qed

text \<open>
  C2. The claim makes the total duration the maximum of start offset plus total span over
  all elements. In the document with \<open>dur=".s"\<close> on one element and \<open>dur="2s"\<close> on
  another, \<open>parseTime\<close> returns \<open>NaN\<close> for \<open>.s\<close>, the end time of the first window is
  \<open>NaN\<close>, \<open>Math.max\<close> keeps it, and \<open>duration\<close> is null although the second
  window ends at 2000.
\<close>

theorem C2_point_document:
  "timings pointDoc =
     [\<lparr>endTime = Some NaN, isInfinite = False, baseDuration = Some NaN,
       isExplicitInfinite = False\<rparr>,
      \<lparr>endTime = Some (Fin 2000), isInfinite = False, baseDuration = Some (Fin 2000),
       isExplicitInfinite = False\<rparr>] \<and>
   hasAnimations (analyzeAnimations pointDoc) \<and>
   \<not> hasInfiniteAnimations (analyzeAnimations pointDoc) \<and>
   duration (analyzeAnimations pointDoc) = None"
  by code_simp

subsection \<open>The \<open>begin\<close> attribute and infinite windows\<close>

lemma map_of_filter_key:
  "n \<noteq> b \<Longrightarrow> map_of (filter (\<lambda>kv. fst kv \<noteq> b) xs) n = map_of xs n"
  by (induction xs) auto

lemma sameExceptBegin_getAttribute:
  assumes "sameExceptBegin e1 e2" and "n \<noteq> ''begin''"
  shows "getAttribute e1 n = getAttribute e2 n"
proof -
  have "getAttribute e1 n = map_of (withoutBegin e1) n"
    using assms(2) by (simp add: getAttribute_def withoutBegin_def map_of_filter_key)
  also have "\<dots> = map_of (withoutBegin e2) n"
    using assms(1) by (simp add: sameExceptBegin_def)
  also have "\<dots> = getAttribute e2 n"
    using assms(2) by (simp add: getAttribute_def withoutBegin_def map_of_filter_key)
  finally show ?thesis .
qed

lemma sameExceptBegin_locals:
  assumes "sameExceptBegin e1 e2"
  shows "baseDurationOf e1 = baseDurationOf e2"
    and "repeatCountOf e1 = repeatCountOf e2"
    and "repeatDurationOf e1 = repeatDurationOf e2"
    and "totalDurationOf e1 = totalDurationOf e2"
proof -
  show b: "baseDurationOf e1 = baseDurationOf e2"
    by (simp add: baseDurationOf_def sameExceptBegin_getAttribute [OF assms])
  show c: "repeatCountOf e1 = repeatCountOf e2"
    by (simp add: repeatCountOf_def sameExceptBegin_getAttribute [OF assms])
  show d: "repeatDurationOf e1 = repeatDurationOf e2"
    by (simp add: repeatDurationOf_def sameExceptBegin_getAttribute [OF assms])
  show "totalDurationOf e1 = totalDurationOf e2"
    unfolding totalDurationOf_def b c d ..
qed

lemma sameExceptBegin_timing:
  assumes "sameExceptBegin e1 e2"
  shows "isInfinite (parseAnimationTiming e2) = isInfinite (parseAnimationTiming e1)"
    and "baseDuration (parseAnimationTiming e2) = baseDuration (parseAnimationTiming e1)"
    and "isExplicitInfinite (parseAnimationTiming e2) = isExplicitInfinite (parseAnimationTiming e1)"
    and "isInfinite (parseAnimationTiming e1) \<Longrightarrow>
           parseAnimationTiming e2 = parseAnimationTiming e1"
proof -
  have a: "getAttribute e1 ''dur'' = getAttribute e2 ''dur''"
    "getAttribute e1 ''repeatCount'' = getAttribute e2 ''repeatCount''"
    "getAttribute e1 ''repeatDur'' = getAttribute e2 ''repeatDur''"
    by (simp_all add: sameExceptBegin_getAttribute [OF assms])
  note l = sameExceptBegin_locals [OF assms]
  show "isInfinite (parseAnimationTiming e2) = isInfinite (parseAnimationTiming e1)"
    unfolding parseAnimationTiming_def a l by simp
  show "baseDuration (parseAnimationTiming e2) = baseDuration (parseAnimationTiming e1)"
    unfolding parseAnimationTiming_def a l by simp
  show "isExplicitInfinite (parseAnimationTiming e2) = isExplicitInfinite (parseAnimationTiming e1)"
    unfolding parseAnimationTiming_def a l by simp
  show "parseAnimationTiming e2 = parseAnimationTiming e1"
    if "isInfinite (parseAnimationTiming e1)"
    using that unfolding parseAnimationTiming_def a l by (simp split: if_splits)
qed

lemma differOnlyInBegin_same: "differOnlyInBegin d1 d2 \<Longrightarrow> sameExceptBegin d1 d2"
  by (cases d1; cases d2) simp

lemma differOnlyInBegin_children:
  "differOnlyInBegin d1 d2 \<Longrightarrow> list_all2 differOnlyInBegin (childNodes d1) (childNodes d2)"
  by (cases d1; cases d2) simp

lemma descendants_childNodes:
  "descendants d = concat (map (\<lambda>c. c # descendants c) (childNodes d))"
  by (cases d) simp

lemma list_all2_concat_map:
  assumes "list_all2 R xs ys"
    and "\<And>x y. x \<in> set xs \<Longrightarrow> R x y \<Longrightarrow> list_all2 Q (f x) (g y)"
  shows "list_all2 Q (concat (map f xs)) (concat (map g ys))"
  using assms
proof (induction xs ys rule: list_all2_induct)
  case Nil
  then show ?case by simp
next
  case (Cons x xs y ys)
  have "list_all2 Q (f x) (g y)" using Cons.hyps(1) Cons.prems by simp
  moreover have "list_all2 Q (concat (map f xs)) (concat (map g ys))"
    using Cons.IH Cons.prems by simp
  ultimately show ?case by (simp add: list_all2_appendI)
qed

lemma differOnlyInBegin_descendants:
  "differOnlyInBegin d1 d2 \<Longrightarrow>
     list_all2 differOnlyInBegin (descendants d1) (descendants d2)"
proof (induction d1 arbitrary: d2)
  case (Element t1 a1 c1)
  from Element.prems have cs: "list_all2 differOnlyInBegin c1 (childNodes d2)"
    using differOnlyInBegin_children by fastforce
  have "list_all2 differOnlyInBegin
          (concat (map (\<lambda>c. c # descendants c) c1))
          (concat (map (\<lambda>c. c # descendants c) (childNodes d2)))"
    using cs
  proof (rule list_all2_concat_map)
    fix x y assume "x \<in> set c1" and "differOnlyInBegin x y"
    then show "list_all2 differOnlyInBegin (x # descendants x) (y # descendants y)"
      using Element.IH by simp
  qed
  then show ?case by (simp add: descendants_childNodes [of d2])
qed

lemma list_all2_filter_tag:
  assumes "list_all2 differOnlyInBegin xs ys"
  shows "list_all2 sameExceptBegin
           (filter (\<lambda>d. tagName d = n) xs) (filter (\<lambda>d. tagName d = n) ys)"
  using assms
proof (induction xs ys rule: list_all2_induct)
  case Nil
  then show ?case by simp
next
  case (Cons x xs y ys)
  from Cons.hyps(1) have s: "sameExceptBegin x y" by (rule differOnlyInBegin_same)
  then have "tagName x = tagName y" by (simp add: sameExceptBegin_def)
  with s Cons.IH show ?case by simp
qed

lemma differOnlyInBegin_animationElements:
  assumes "differOnlyInBegin d1 d2"
  shows "list_all2 sameExceptBegin (animationElements d1) (animationElements d2)"
proof -
  have "list_all2 sameExceptBegin (getElementsByTagName d1 n) (getElementsByTagName d2 n)" for n
    unfolding getElementsByTagName_def
    using differOnlyInBegin_descendants [OF assms] by (rule list_all2_filter_tag)
  then show ?thesis
    by (simp add: animationElements_def animationTags_def list_all2_appendI)
qed

lemma sameExceptBegin_reduce:
  assumes "list_all2 sameExceptBegin es1 es2"
  shows "list_ex isInfinite (map parseAnimationTiming es2) =
           list_ex isInfinite (map parseAnimationTiming es1)"
    and "infiniteBaseDurations (map parseAnimationTiming es2) =
           infiniteBaseDurations (map parseAnimationTiming es1)"
    and "explicitForeverDurations (map parseAnimationTiming es2) =
           explicitForeverDurations (map parseAnimationTiming es1)"
  using assms
proof (induction es1 es2 rule: list_all2_induct)
  case Nil
  {
    case 1 show ?case by simp
  next
    case 2 show ?case by simp
  next
    case 3 show ?case by simp
  }
next
  case (Cons x xs y ys)
  note t = sameExceptBegin_timing(1-3) [OF Cons.hyps(1)]
  {
    case 1 show ?case using Cons.IH(1) t by simp
  next
    case 2 show ?case using Cons.IH(2) t
      by (simp add: infiniteBaseDurations_def positiveBase_def)
  next
    case 3 show ?case using Cons.IH(3) t
      by (simp add: explicitForeverDurations_def positiveBase_def)
  }
qed

text \<open>
  C10. For two elements that differ only in the \<open>begin\<close> attribute: if the window of
  one is infinite, the two windows are identical; in any case they agree on
  \<open>isInfinite\<close>, \<open>baseDuration\<close> and \<open>isExplicitInfinite\<close>, so only the end time
  of a finite window can differ. Consequently two documents that differ only in
  \<open>begin\<close> attributes have the same \<open>hasInfiniteAnimations\<close> and the same
  \<open>loopDuration\<close>.
\<close>

theorem C10_begin_no_influence:
  "(sameExceptBegin e1 e2 \<and> isInfinite (parseAnimationTiming e1) \<longrightarrow>
      parseAnimationTiming e2 = parseAnimationTiming e1) \<and>
   (sameExceptBegin e1 e2 \<longrightarrow>
      isInfinite (parseAnimationTiming e2) = isInfinite (parseAnimationTiming e1) \<and>
      baseDuration (parseAnimationTiming e2) = baseDuration (parseAnimationTiming e1) \<and>
      isExplicitInfinite (parseAnimationTiming e2) =
        isExplicitInfinite (parseAnimationTiming e1)) \<and>
   (differOnlyInBegin d1 d2 \<longrightarrow>
      hasInfiniteAnimations (analyzeAnimations d2) = hasInfiniteAnimations (analyzeAnimations d1) \<and>
      loopDuration (analyzeAnimations d2) = loopDuration (analyzeAnimations d1))"
proof -
  have doc: "hasInfiniteAnimations (analyzeAnimations d2) =
               hasInfiniteAnimations (analyzeAnimations d1) \<and>
             loopDuration (analyzeAnimations d2) = loopDuration (analyzeAnimations d1)"
    if "differOnlyInBegin d1 d2"
  proof -
    from that have "list_all2 sameExceptBegin (animationElements d1) (animationElements d2)"
      by (rule differOnlyInBegin_animationElements)
    from sameExceptBegin_reduce [OF this] show ?thesis
      by (simp add: analyzeAnimations_def loopDuration_reduceTimings
            hasInfiniteAnimations_reduceTimings)
  qed
  show ?thesis
    using sameExceptBegin_timing [of e1 e2] doc by blast
qed

theorem C10_begin_no_influence_witness:
  "sameExceptBegin delayedLoop plainLoop \<and>
   isInfinite (parseAnimationTiming delayedLoop) \<and>
   parseAnimationTiming plainLoop = parseAnimationTiming delayedLoop \<and>
   differOnlyInBegin (svgDoc [delayedLoop]) (svgDoc [plainLoop]) \<and>
   hasInfiniteAnimations (analyzeAnimations (svgDoc [plainLoop])) =
     hasInfiniteAnimations (analyzeAnimations (svgDoc [delayedLoop])) \<and>
   loopDuration (analyzeAnimations (svgDoc [plainLoop])) =
     loopDuration (analyzeAnimations (svgDoc [delayedLoop]))"
proof -
  have s: "sameExceptBegin delayedLoop plainLoop" by code_simp
  have i: "isInfinite (parseAnimationTiming delayedLoop)" by code_simp
  have d: "differOnlyInBegin (svgDoc [delayedLoop]) (svgDoc [plainLoop])" by code_simp
  from C10_begin_no_influence
         [of delayedLoop plainLoop "svgDoc [delayedLoop]" "svgDoc [plainLoop]"] s i d
  show ?thesis by blast
qed

subsection \<open>The duration that is recorded\<close>











end
